theory Spec2Isabelle
  imports Complex_Main "HOL-Library.Word" "HOL-Library.Sublist"
begin

unbundle bit_operations_syntax

section \<open>JavaScript strings\<close>

text \<open>
  Strings are lists of code units. The source searches for one-character strings only
  (\<open>'/'\<close>, \<open>'.'\<close>, \<open>':'\<close>), so the needle of \<open>indexOf\<close> and \<open>lastIndexOf\<close> is a
  character. Both return \<open>-1\<close> when the needle does not occur.
\<close>

primrec indexOf :: "string \<Rightarrow> char \<Rightarrow> int" where
  "indexOf [] c = -1"
| "indexOf (x # xs) c =
     (if x = c then 0 else (let i = indexOf xs c in if i < 0 then -1 else i + 1))"

definition lastIndexOf :: "string \<Rightarrow> char \<Rightarrow> int" where
  "lastIndexOf s c =
     (let i = indexOf (rev s) c in if i < 0 then -1 else int (length s) - 1 - i)"

text \<open>
  A position handed to a string method is first made an integer
  (\<open>ToIntegerOrInfinity\<close>), which can be infinite.
\<close>

datatype jsint = NegInf | Fin int | PosInf

text \<open>
  \<open>s.substr(start, length)\<close>: a negative start counts from the end, the start is clamped
  to the string, the length is clamped to what is left. \<open>s.substr(start)\<close> runs to the end
  of the string.
\<close>

definition substr_start :: "string \<Rightarrow> jsint \<Rightarrow> nat" where
  "substr_start s start =
     (case start of
        NegInf \<Rightarrow> 0
      | PosInf \<Rightarrow> length s
      | Fin i \<Rightarrow> (if i < 0 then nat (max (int (length s) + i) 0)
                  else nat (min i (int (length s)))))"

definition substr :: "string \<Rightarrow> jsint \<Rightarrow> jsint \<Rightarrow> string" where
  "substr s start len =
     (let st = substr_start s start;
          n = (case len of NegInf \<Rightarrow> 0 | PosInf \<Rightarrow> length s | Fin l \<Rightarrow> nat (max l 0))
      in take (min n (length s - st)) (drop st s))"

definition substr_from :: "string \<Rightarrow> jsint \<Rightarrow> string" where
  "substr_from s start = drop (substr_start s start) s"

text \<open>
  \<open>s.substring(start, end)\<close>: both positions are clamped to the string and swapped when
  the first is the larger.
\<close>

definition substring :: "string \<Rightarrow> int \<Rightarrow> int \<Rightarrow> string" where
  "substring s start end =
     (let n = int (length s);
          a = min (max start 0) n;
          b = min (max end 0) n
      in take (nat (max a b) - nat (min a b)) (drop (nat (min a b)) s))"

section \<open>Strings as numbers\<close>

text \<open>
  A string used where a number is wanted goes through \<open>StringToNumber\<close>: white space is
  trimmed, the empty string is 0, a numeric literal (decimal with optional sign, fraction
  and exponent, \<open>Infinity\<close>, or an unsigned binary, octal or hexadecimal integer) is its
  value rounded to the nearest double, and anything else is \<open>NaN\<close>. A double is kept as
  the rational it denotes.
\<close>

datatype number = NaN | NegInfinity | Finite rat | PosInfinity

definition is_whitespace :: "char \<Rightarrow> bool" where
  "is_whitespace c \<longleftrightarrow>
     c \<in> set [CHR 0x09, CHR 0x0A, CHR 0x0B, CHR 0x0C, CHR 0x0D, CHR 0x20, CHR 0xA0]"

definition trim :: "string \<Rightarrow> string" where
  "trim s = rev (dropWhile is_whitespace (rev (dropWhile is_whitespace s)))"

definition digit_of :: "char \<Rightarrow> int option" where
  "digit_of c =
     (let n = (of_char c :: int) in
      if 48 \<le> n \<and> n \<le> 57 then Some (n - 48)
      else if 97 \<le> n \<and> n \<le> 102 then Some (n - 87)
      else if 65 \<le> n \<and> n \<le> 70 then Some (n - 55)
      else None)"

definition is_digit :: "int \<Rightarrow> char \<Rightarrow> bool" where
  "is_digit base c = (case digit_of c of None \<Rightarrow> False | Some d \<Rightarrow> d < base)"

definition is_digits :: "int \<Rightarrow> string \<Rightarrow> bool" where
  "is_digits base ds \<longleftrightarrow> ds \<noteq> [] \<and> list_all (is_digit base) ds"

definition digits_value :: "int \<Rightarrow> string \<Rightarrow> int" where
  "digits_value base ds =
     foldl (\<lambda>a c. a * base + (case digit_of c of None \<Rightarrow> 0 | Some d \<Rightarrow> d)) 0 ds"

function bitlen :: "int \<Rightarrow> nat" where
  "bitlen n = (if n \<le> 0 then 0 else Suc (bitlen (n div 2)))"
  by pat_completeness auto
termination
  by (relation "measure nat") auto

declare bitlen.simps [simp del]

definition pow2 :: "int \<Rightarrow> rat" where
  "pow2 e = (if 0 \<le> e then 2 ^ nat e else 1 / 2 ^ nat (- e))"

definition pow10 :: "int \<Rightarrow> rat" where
  "pow10 e = (if 0 \<le> e then 10 ^ nat e else 1 / 10 ^ nat (- e))"

text \<open>For \<open>a > 0\<close>, the \<open>e\<close> with \<open>2 ^ e \<le> a < 2 ^ (e + 1)\<close>.\<close>

definition floor_log2 :: "rat \<Rightarrow> int" where
  "floor_log2 a =
     (let (p, q) = quotient_of a;
          k = int (bitlen p) - int (bitlen q)
      in if pow2 k \<le> a then k else k - 1)"

definition round_half_even :: "rat \<Rightarrow> int" where
  "round_half_even m =
     (let f = \<lfloor>m\<rfloor>; d = m - of_int f in
      if d < 1 / 2 then f
      else if 1 / 2 < d then f + 1
      else if even f then f else f + 1)"

text \<open>
  The double nearest to a rational, ties to even: 53 significant bits, the smallest
  exponent \<open>-1022\<close>, infinite from \<open>2 ^ 1024\<close> on.
\<close>

definition to_double :: "rat \<Rightarrow> number" where
  "to_double v =
     (if v = 0 then Finite 0
      else
        (let a = \<bar>v\<bar>;
             e = max (floor_log2 a) (- 1022);
             ulp = pow2 (e - 52);
             r = of_int (round_half_even (a / ulp)) * ulp
         in if pow2 1024 \<le> r then (if v < 0 then NegInfinity else PosInfinity)
            else Finite (if v < 0 then - r else r)))"

definition radix_literal :: "int \<Rightarrow> string \<Rightarrow> number" where
  "radix_literal base ds =
     (if is_digits base ds then to_double (of_int (digits_value base ds)) else NaN)"

definition is_exp_char :: "char \<Rightarrow> bool" where
  "is_exp_char c \<longleftrightarrow> c = CHR ''e'' \<or> c = CHR ''E''"

text \<open>The exponent after \<open>e\<close> or \<open>E\<close>: digits with an optional sign.\<close>

definition exponent_value :: "string \<Rightarrow> int option" where
  "exponent_value x =
     (case x of
        [] \<Rightarrow> None
      | c # ds \<Rightarrow>
          (if c = CHR ''+'' then
             (if is_digits 10 ds then Some (digits_value 10 ds) else None)
           else if c = CHR ''-'' then
             (if is_digits 10 ds then Some (- digits_value 10 ds) else None)
           else if is_digits 10 x then Some (digits_value 10 x) else None))"

text \<open>
  An unsigned decimal literal other than \<open>Infinity\<close>: digits, an optional dot and more
  digits (at least one digit in all), an optional exponent. The result is its exact value.
\<close>

definition unsigned_decimal :: "string \<Rightarrow> rat option" where
  "unsigned_decimal u =
     (let mant = takeWhile (\<lambda>c. \<not> is_exp_char c) u;
          rest = dropWhile (\<lambda>c. \<not> is_exp_char c) u;
          ip = takeWhile (\<lambda>c. c \<noteq> CHR ''.'') mant;
          fp = drop 1 (dropWhile (\<lambda>c. c \<noteq> CHR ''.'') mant)
      in if list_all (is_digit 10) ip \<and> list_all (is_digit 10) fp \<and> (ip \<noteq> [] \<or> fp \<noteq> [])
         then
           (let m = of_int (digits_value 10 (ip @ fp)) / 10 ^ length fp in
            if rest = [] then Some m
            else (case exponent_value (drop 1 rest) of
                    None \<Rightarrow> None
                  | Some ex \<Rightarrow> Some (m * pow10 ex)))
         else None)"

definition signed_decimal :: "bool \<Rightarrow> string \<Rightarrow> number" where
  "signed_decimal neg u =
     (if u = ''Infinity'' then (if neg then NegInfinity else PosInfinity)
      else (case unsigned_decimal u of
              None \<Rightarrow> NaN
            | Some v \<Rightarrow> to_double (if neg then - v else v)))"

definition StringToNumber :: "string \<Rightarrow> number" where
  "StringToNumber s =
     (let t = trim s in
      if t = [] then Finite 0
      else if take 2 t = ''0x'' \<or> take 2 t = ''0X'' then radix_literal 16 (drop 2 t)
      else if take 2 t = ''0o'' \<or> take 2 t = ''0O'' then radix_literal 8 (drop 2 t)
      else if take 2 t = ''0b'' \<or> take 2 t = ''0B'' then radix_literal 2 (drop 2 t)
      else if take 1 t = ''+'' then signed_decimal False (drop 1 t)
      else if take 1 t = ''-'' then signed_decimal True (drop 1 t)
      else signed_decimal False t)"

text \<open>\<open>ToIntegerOrInfinity\<close>: \<open>NaN\<close> is 0, a finite number loses its fraction.\<close>

definition ToIntegerOrInfinity :: "number \<Rightarrow> jsint" where
  "ToIntegerOrInfinity x =
     (case x of
        NaN \<Rightarrow> Fin 0
      | NegInfinity \<Rightarrow> NegInf
      | PosInfinity \<Rightarrow> PosInf
      | Finite r \<Rightarrow> Fin (if 0 \<le> r then \<lfloor>r\<rfloor> else - \<lfloor>- r\<rfloor>))"

definition string_position :: "string \<Rightarrow> jsint" where
  "string_position s = ToIntegerOrInfinity (StringToNumber s)"

section \<open>SHA-256\<close>

text \<open>
  \<open>crypto.createHash("sha256")\<close> with \<open>digest('hex')\<close>: the SHA-256 function of
  FIPS 180-4 over the bytes fed to it, written as 64 lowercase hexadecimal digits.
\<close>

type_synonym word32 = "32 word"

text \<open>
  The constants, as the standard defines them: the first 32 bits of the fractional parts
  of the cube roots of the first 64 primes, and of the square roots of the first 8 primes
  for the initial hash value. \<open>root_between k n lo hi\<close> is the largest \<open>r\<close> with
  \<open>r ^ k \<le> n\<close>, looked for from \<open>lo\<close> up to \<open>hi\<close> (excluded).
\<close>

function root_between :: "nat \<Rightarrow> int \<Rightarrow> int \<Rightarrow> int \<Rightarrow> int" where
  "root_between k n lo hi =
     (if hi \<le> lo + 1 then lo
      else (let mid = (lo + hi) div 2 in
            if mid ^ k \<le> n then root_between k n mid hi else root_between k n lo mid))"
  by pat_completeness auto
termination
  by (relation "measure (\<lambda>(k, n, lo, hi). nat (hi - lo))") auto

declare root_between.simps [simp del]

definition first_primes :: "int list" where
  "first_primes =
     [2, 3, 5, 7, 11, 13, 17, 19, 23, 29, 31, 37, 41, 43, 47, 53, 59, 61, 67, 71, 73, 79, 83,
      89, 97, 101, 103, 107, 109, 113, 127, 131, 137, 139, 149, 151, 157, 163, 167, 173, 179,
      181, 191, 193, 197, 199, 211, 223, 227, 229, 233, 239, 241, 251, 257, 263, 269, 271, 277,
      281, 283, 293, 307, 311]"

definition root_fraction_bits :: "nat \<Rightarrow> int \<Rightarrow> word32" where
  "root_fraction_bits k p = of_int (root_between k (p * 2 ^ (32 * k)) 0 (p * 2 ^ 32))"

definition K256 :: "word32 list" where
  "K256 = map (root_fraction_bits 3) first_primes"

type_synonym hash_state =
  "word32 \<times> word32 \<times> word32 \<times> word32 \<times> word32 \<times> word32 \<times> word32 \<times> word32"

definition H256 :: hash_state where
  "H256 =
     (case map (root_fraction_bits 2) (take 8 first_primes) of
        [a, b, c, d, e, f, g, h] \<Rightarrow> (a, b, c, d, e, f, g, h)
      | _ \<Rightarrow> (0, 0, 0, 0, 0, 0, 0, 0))"

definition rotr :: "nat \<Rightarrow> word32 \<Rightarrow> word32" where
  "rotr n x = drop_bit n x OR push_bit (32 - n) x"

definition Ch :: "word32 \<Rightarrow> word32 \<Rightarrow> word32 \<Rightarrow> word32" where
  "Ch x y z = (x AND y) XOR (NOT x AND z)"

definition Maj :: "word32 \<Rightarrow> word32 \<Rightarrow> word32 \<Rightarrow> word32" where
  "Maj x y z = (x AND y) XOR (x AND z) XOR (y AND z)"

definition bsig0 :: "word32 \<Rightarrow> word32" where
  "bsig0 x = rotr 2 x XOR rotr 13 x XOR rotr 22 x"

definition bsig1 :: "word32 \<Rightarrow> word32" where
  "bsig1 x = rotr 6 x XOR rotr 11 x XOR rotr 25 x"

definition ssig0 :: "word32 \<Rightarrow> word32" where
  "ssig0 x = rotr 7 x XOR rotr 18 x XOR drop_bit 3 x"

definition ssig1 :: "word32 \<Rightarrow> word32" where
  "ssig1 x = rotr 17 x XOR rotr 19 x XOR drop_bit 10 x"

definition be_bytes :: "nat \<Rightarrow> int \<Rightarrow> int list" where
  "be_bytes k n = map (\<lambda>i. (n div 256 ^ i) mod 256) (rev [0..<k])"

definition pad :: "int list \<Rightarrow> int list" where
  "pad m = m @ [128] @ replicate ((64 - (length m + 9) mod 64) mod 64) 0
             @ be_bytes 8 (8 * int (length m))"

primrec chop :: "nat \<Rightarrow> nat \<Rightarrow> 'a list \<Rightarrow> 'a list list" where
  "chop 0 n xs = []"
| "chop (Suc k) n xs = take n xs # chop k n (drop n xs)"

definition be_word :: "int list \<Rightarrow> word32" where
  "be_word bs = of_int (foldl (\<lambda>a b. a * 256 + b) 0 bs)"

primrec schedule_ext :: "nat \<Rightarrow> word32 list \<Rightarrow> word32 list" where
  "schedule_ext 0 ws = ws"
| "schedule_ext (Suc n) ws =
     schedule_ext n
       (ws @ [ssig1 (ws ! (length ws - 2)) + ws ! (length ws - 7)
              + ssig0 (ws ! (length ws - 15)) + ws ! (length ws - 16)])"

definition schedule :: "int list \<Rightarrow> word32 list" where
  "schedule block = schedule_ext 48 (map be_word (chop 16 4 block))"

definition round256 :: "hash_state \<Rightarrow> word32 \<times> word32 \<Rightarrow> hash_state" where
  "round256 s kw =
     (case s of (a, b, c, d, e, f, g, h) \<Rightarrow>
        (let t1 = h + bsig1 e + Ch e f g + fst kw + snd kw;
             t2 = bsig0 a + Maj a b c
         in (t1 + t2, a, b, c, d + t1, e, f, g)))"

definition process_block :: "hash_state \<Rightarrow> int list \<Rightarrow> hash_state" where
  "process_block s block =
     (case s of (a, b, c, d, e, f, g, h) \<Rightarrow>
        (case foldl round256 s (zip K256 (schedule block)) of
           (a', b', c', d', e', f', g', h') \<Rightarrow>
             (a + a', b + b', c + c', d + d', e + e', f + f', g + g', h + h')))"

definition sha256 :: "int list \<Rightarrow> hash_state" where
  "sha256 m = (let p = pad m in foldl process_block H256 (chop (length p div 64) 64 p))"

definition hex_char :: "word32 \<Rightarrow> char" where
  "hex_char n = ''0123456789abcdef'' ! unat (n AND 15)"

definition hex32 :: "word32 \<Rightarrow> string" where
  "hex32 w = map (\<lambda>i. hex_char (drop_bit (4 * i) w)) [7, 6, 5, 4, 3, 2, 1, 0]"

definition sha256_hex :: "string \<Rightarrow> string" where
  "sha256_hex bytes =
     (case sha256 (map of_char bytes) of
        (a, b, c, d, e, f, g, h) \<Rightarrow> concat (map hex32 [a, b, c, d, e, f, g, h]))"

section \<open>Errors\<close>

datatype error =
    ReferenceError string
  | TypeError string
  | SyntaxError string
  | ENOENT string

section \<open>NameNormalizer: simplifyName\<close>

text \<open>
  What an identifier that a function body reads, without declaring it, is bound to.
  Only a number can serve as a string position as it is; every other value of this
  module (the media type strings, the required modules, the functions) is not a numeric
  string and becomes \<open>NaN\<close>, which as a position is 0.
\<close>

datatype binding = NumB int | OtherB

definition module_scope :: "string \<rightharpoonup> binding" where
  "module_scope =
     [''tar'' \<mapsto> OtherB, ''fs'' \<mapsto> OtherB, ''fsPromises'' \<mapsto> OtherB, ''Dat'' \<mapsto> OtherB,
      ''crypto'' \<mapsto> OtherB, ''rmdir'' \<mapsto> OtherB,
      ''ManifestVersion'' \<mapsto> NumB 2, ''ManifestType'' \<mapsto> OtherB,
      ''ConfigType'' \<mapsto> OtherB, ''LayerType'' \<mapsto> OtherB,
      ''getInput'' \<mapsto> OtherB, ''untar'' \<mapsto> OtherB, ''parseJsonFromFile'' \<mapsto> OtherB,
      ''parseRepositories'' \<mapsto> OtherB, ''parseManifest'' \<mapsto> OtherB,
      ''simplifyName'' \<mapsto> OtherB, ''createDirectoryStructure'' \<mapsto> OtherB,
      ''copyRootLayer'' \<mapsto> OtherB, ''compressLayer'' \<mapsto> OtherB,
      ''copyOtherLayers'' \<mapsto> OtherB, ''writeManifest'' \<mapsto> OtherB,
      ''createDatRepo'' \<mapsto> OtherB, ''run'' \<mapsto> OtherB]"

definition as_position :: "binding \<Rightarrow> jsint" where
  "as_position b = (case b of NumB n \<Rightarrow> Fin n | OtherB \<Rightarrow> Fin 0)"

text \<open>\<open>content + 1\<close>: a sum of numbers, or a string that is not numeric (position 0).\<close>

definition plus_one_position :: "binding \<Rightarrow> jsint" where
  "plus_one_position b = (case b of NumB n \<Rightarrow> Fin (n + 1) | OtherB \<Rightarrow> Fin 0)"

text \<open>
  The body of \<open>simplifyName\<close> (index.js, lines 85 to 102). Its locals are \<open>imageName\<close>,
  \<open>lastSlashPos\<close> and \<open>firstPart\<close>; the identifier \<open>content\<close> of lines 93 and 97 is none
  of them, so it is looked up in the enclosing scope, and reading an identifier that
  nothing binds throws a \<open>ReferenceError\<close>. The condition of line 95 uses the number
  \<open>firstPart.indexOf(':')\<close> as a truth value: every number but 0 counts as true.
\<close>

definition simplifyName_in :: "(string \<rightharpoonup> binding) \<Rightarrow> string \<Rightarrow> error + string" where
  "simplifyName_in scope imageName =
     (let lastSlashPos = lastIndexOf imageName CHR ''/'' in
      if lastSlashPos < 0 then Inr imageName
      else
        (case scope ''content'' of
           None \<Rightarrow> Inl (ReferenceError ''content'')
         | Some content \<Rightarrow>
             (let firstPart = substr imageName (Fin 0) (as_position content) in
              if indexOf firstPart CHR ''.'' > -1 \<or> indexOf firstPart CHR '':'' \<noteq> 0
              then Inr (substr_from imageName (plus_one_position content))
              else Inr imageName)))"

definition simplifyName :: "string \<Rightarrow> error + string" where
  "simplifyName imageName = simplifyName_in module_scope imageName"


section \<open>Values, objects and JSON text\<close>

text \<open>
  The values the pipeline builds: primitives, array and object literals (an object is the
  list of its properties in creation order), and references to the layer objects, which
  are shared between the manifest and the layer tasks and live in a store. A layer object
  only ever holds primitives.
\<close>

datatype prim = Undefined | Num int | Str string

datatype jsval = Prim prim | Arr "jsval list" | Obj "(string \<times> jsval) list" | Ref nat

type_synonym layer_object = "(string \<times> prim) list"

text \<open>\<open>o[k] = v\<close>: an existing property keeps its place, a new one goes last.\<close>

primrec set_prop :: "string \<Rightarrow> 'v \<Rightarrow> (string \<times> 'v) list \<Rightarrow> (string \<times> 'v) list" where
  "set_prop k v [] = [(k, v)]"
| "set_prop k v (p # ps) = (if fst p = k then (k, v) # ps else p # set_prop k v ps)"

definition get_prop :: "(string \<times> prim) list \<Rightarrow> string \<Rightarrow> prim" where
  "get_prop ob k = (case map_of ob k of None \<Rightarrow> Undefined | Some v \<Rightarrow> v)"

fun show_nat :: "nat \<Rightarrow> string" where
  "show_nat n =
     (if n < 10 then [''0123456789'' ! n]
      else show_nat (n div 10) @ [''0123456789'' ! (n mod 10)])"

declare show_nat.simps [simp del]

definition show_int :: "int \<Rightarrow> string" where
  "show_int i = (if i < 0 then ''-'' @ show_nat (nat (- i)) else show_nat (nat i))"

text \<open>
  \<open>JSON.stringify\<close> on a string: quotes around it; the quote, the backslash and the
  control characters are escaped.
\<close>

definition escape_char :: "char \<Rightarrow> string" where
  "escape_char c =
     (if c = CHR 0x22 then [CHR 0x5C, CHR 0x22]
      else if c = CHR 0x5C then [CHR 0x5C, CHR 0x5C]
      else if c = CHR 0x08 then [CHR 0x5C, CHR ''b'']
      else if c = CHR 0x0C then [CHR 0x5C, CHR ''f'']
      else if c = CHR 0x0A then [CHR 0x5C, CHR ''n'']
      else if c = CHR 0x0D then [CHR 0x5C, CHR ''r'']
      else if c = CHR 0x09 then [CHR 0x5C, CHR ''t'']
      else if (of_char c :: nat) < 32
        then [CHR 0x5C, CHR ''u'', CHR ''0'', CHR ''0'',
              ''0123456789abcdef'' ! ((of_char c :: nat) div 16),
              ''0123456789abcdef'' ! ((of_char c :: nat) mod 16)]
      else [c])"

definition quote :: "string \<Rightarrow> string" where
  "quote s = [CHR 0x22] @ concat (map escape_char s) @ [CHR 0x22]"

primrec join_comma :: "string list \<Rightarrow> string" where
  "join_comma [] = []"
| "join_comma (x # xs) = (if xs = [] then x else x @ '','' @ join_comma xs)"

definition prim_text :: "prim \<Rightarrow> string option" where
  "prim_text p =
     (case p of Undefined \<Rightarrow> None | Num n \<Rightarrow> Some (show_int n) | Str s \<Rightarrow> Some (quote s))"

text \<open>An object: a property whose value is \<open>undefined\<close> is left out.\<close>

definition object_text :: "(string \<times> string option) list \<Rightarrow> string" where
  "object_text kts =
     ''{'' @ join_comma (concat (map (\<lambda>kt. case snd kt of
                                              None \<Rightarrow> []
                                            | Some t \<Rightarrow> [quote (fst kt) @ '':'' @ t]) kts))
       @ ''}''"

text \<open>
  \<open>JSON.stringify\<close>, with the store of layer objects. The result \<open>None\<close> is
  \<open>undefined\<close>; in an array it is written \<open>null\<close>.
\<close>

fun json_text :: "(nat \<Rightarrow> layer_object) \<Rightarrow> jsval \<Rightarrow> string option" where
  "json_text h (Prim p) = prim_text p"
| "json_text h (Arr xs) =
     Some (''['' @ join_comma (map (\<lambda>x. case json_text h x of None \<Rightarrow> ''null'' | Some t \<Rightarrow> t) xs)
           @ '']'')"
| "json_text h (Obj kvs) = Some (object_text (map (\<lambda>kv. (fst kv, json_text h (snd kv))) kvs))"
| "json_text h (Ref a) = Some (object_text (map (\<lambda>kp. (fst kp, prim_text (snd kp))) (h a)))"

section \<open>The file system and the program state\<close>

text \<open>
  Regular files with their bytes and the set of directories, both by path; paths are
  compared as strings. A file can be read when it exists and written when the directory
  above it exists; permissions, a full disk and a directory in the place of a file are
  left out. With them the state holds what the program mutates: the store of
  layer objects and the variable \<open>layerJson\<close>, which \<open>copyOtherLayers\<close> assigns without
  declaring it.
\<close>

record state =
  files :: "string \<rightharpoonup> string"
  dirs :: "string set"
  heap :: "nat \<Rightarrow> layer_object"
  next_addr :: nat
  global_layerJson :: "nat option"

definition dirname :: "string \<Rightarrow> string" where
  "dirname p = (let i = lastIndexOf p CHR ''/'' in if i < 0 then ''.'' else take (nat i) p)"

text \<open>The working directory \<open>.\<close> and the root (the empty prefix of \<open>/x\<close>) always exist.\<close>

definition dir_exists :: "state \<Rightarrow> string \<Rightarrow> bool" where
  "dir_exists st d \<longleftrightarrow> d = ''.'' \<or> d = [] \<or> d \<in> dirs st"

definition rename :: "string \<Rightarrow> string \<Rightarrow> state \<Rightarrow> error + state" where
  "rename src dst st =
     (case files st src of
        None \<Rightarrow> Inl (ENOENT src)
      | Some bytes \<Rightarrow>
          if \<not> dir_exists st (dirname dst) then Inl (ENOENT dst)
          else Inr (st\<lparr>files := (files st)(src := None, dst \<mapsto> bytes)\<rparr>))"

definition readFile :: "string \<Rightarrow> state \<Rightarrow> error + string" where
  "readFile p st = (case files st p of None \<Rightarrow> Inl (ENOENT p) | Some bytes \<Rightarrow> Inr bytes)"

text \<open>Opening a file for writing creates it, or empties it.\<close>

definition open_write :: "string \<Rightarrow> state \<Rightarrow> error + state" where
  "open_write p st =
     (if \<not> dir_exists st (dirname p) then Inl (ENOENT p)
      else Inr (st\<lparr>files := (files st)(p \<mapsto> [])\<rparr>))"

definition writeFile :: "string \<Rightarrow> string \<Rightarrow> state \<Rightarrow> error + state" where
  "writeFile p text st =
     (case open_write p st of
        Inl e \<Rightarrow> Inl e
      | Inr st' \<Rightarrow> Inr (st'\<lparr>files := (files st')(p \<mapsto> text)\<rparr>))"

text \<open>The path itself and each of its prefixes that ends before a separator.\<close>

definition path_prefixes :: "string \<Rightarrow> string list" where
  "path_prefixes p =
     filter (\<lambda>q. q \<noteq> []) (map (\<lambda>i. take i p) (filter (\<lambda>i. p ! i = CHR ''/'') [0..<length p]))
       @ [p]"

definition mkdir_recursive :: "string \<Rightarrow> state \<Rightarrow> state" where
  "mkdir_recursive p st = st\<lparr>dirs := dirs st \<union> set (path_prefixes p)\<rparr>"

text \<open>
  \<open>mkdtemp(prefix)\<close> makes a new directory named by the prefix and six characters of
  the system's choice, here a parameter.
\<close>

definition mkdtemp :: "string \<Rightarrow> string \<Rightarrow> state \<Rightarrow> string \<times> state" where
  "mkdtemp pre chosen st = (pre @ chosen, st\<lparr>dirs := insert (pre @ chosen) (dirs st)\<rparr>)"

text \<open>The size a \<open>stat\<close> of the path would report, once its promise is fulfilled.\<close>

definition stat :: "string \<Rightarrow> state \<Rightarrow> error + nat" where
  "stat p st = (case files st p of None \<Rightarrow> Inl (ENOENT p) | Some bytes \<Rightarrow> Inr (length bytes))"

text \<open>
  \<open>fsPromises.stat(p).size\<close> reads the property \<open>size\<close> of the promise that \<open>stat\<close>
  returns, not of the result the promise will have. A promise has no such property:
  the value is \<open>undefined\<close>, and \<open>await\<close> hands a value that is no promise back as it is.
\<close>

definition size_of_promise :: "error + nat \<Rightarrow> prim" where
  "size_of_promise promise = Undefined"

text \<open>
  How a run can end other than well: the promise of \<open>run\<close> is rejected (and the handler at
  the end of the file prints the stack), an \<open>error\<close> event of a stream finds no listener
  and is thrown out of the event loop, or a promise nobody holds is rejected.
\<close>

datatype failure = Rejected error | UncaughtException error | UnhandledRejection error

section \<open>The pipeline\<close>

definition ManifestVersion :: int where
  "ManifestVersion = 2"

definition ManifestType :: string where
  "ManifestType = ''application/vnd.docker.distribution.manifest.v2+json''"

definition ConfigType :: string where
  "ConfigType = ''application/vnd.docker.container.image.v1+json''"

definition LayerType :: string where
  "LayerType = ''application/vnd.docker.image.rootfs.diff.tar.gzip''"

text \<open>
  \<open>untar\<close>: the regular files of the archive, by relative path, are written under the
  target directory, with the directories above them.
\<close>

primrec untar :: "(string \<times> string) list \<Rightarrow> string \<Rightarrow> state \<Rightarrow> state" where
  "untar [] newDir st = st"
| "untar (entry # entries) newDir st =
     untar entries newDir
       (let p = newDir @ ''/'' @ fst entry; st' = mkdir_recursive (dirname p) st
        in st'\<lparr>files := (files st')(p \<mapsto> snd entry)\<rparr>)"

text \<open>\<open>JSON.parse\<close> is a parameter: it gives the typed content of a metadata file.\<close>

definition parseJsonFromFile ::
    "(string \<Rightarrow> error + 'a) \<Rightarrow> string \<Rightarrow> string \<Rightarrow> state \<Rightarrow> error + 'a" where
  "parseJsonFromFile json_parse sourceTempDir file st =
     (case readFile (sourceTempDir @ ''/'' @ file) st of
        Inl e \<Rightarrow> Inl e
      | Inr content \<Rightarrow> json_parse content)"

definition parseRepositories ::
    "(string \<Rightarrow> error + 'a) \<Rightarrow> string \<Rightarrow> state \<Rightarrow> error + 'a" where
  "parseRepositories json_parse sourceTempDir st =
     parseJsonFromFile json_parse sourceTempDir ''repositories'' st"

definition parseManifest ::
    "(string \<Rightarrow> error + 'a) \<Rightarrow> string \<Rightarrow> state \<Rightarrow> error + 'a" where
  "parseManifest json_parse sourceTempDir st =
     parseJsonFromFile json_parse sourceTempDir ''manifest.json'' st"

definition createDirectoryStructure :: "string \<Rightarrow> string \<Rightarrow> state \<Rightarrow> state" where
  "createDirectoryStructure dir name st =
     mkdir_recursive (dir @ ''/work/'' @ name @ ''/blobs'')
       (mkdir_recursive (dir @ ''/work/'' @ name @ ''/manifests'') st)"

text \<open>One entry of \<open>manifest.json\<close>.\<close>

record manifest_entry =
  Config :: string
  Layers :: "string list"

text \<open>
  Line 129, \<open>config.substr(config, config.length - 5)\<close>: the start position is the
  string \<open>config\<close> itself, read as a number.
\<close>

definition rootLayerSha :: "string \<Rightarrow> string" where
  "rootLayerSha config =
     substr config (string_position config) (Fin (int (length config) - 5))"

text \<open>The object that \<open>copyRootLayer\<close> returns (lines 135 to 144).\<close>

definition manifest_literal :: "string \<Rightarrow> prim \<Rightarrow> jsval" where
  "manifest_literal sha fileSize =
     Obj [(''SchemaVersion'', Prim (Num ManifestVersion)),
          (''MediaType'', Prim (Str ManifestType)),
          (''Config'',
             Obj [(''MediaType'', Prim (Str ConfigType)),
                  (''Digest'', Prim (Str (''sha256:'' @ sha))),
                  (''Size'', Prim fileSize)]),
          (''Layers'', Arr [])]"

text \<open>
  \<open>copyRootLayer\<close>. The entry is \<open>None\<close> when \<open>manifest.json\<close> is an empty list and
  \<open>sourceManifest[0]\<close> is \<open>undefined\<close>: reading its \<open>Config\<close> throws.
\<close>

definition copyRootLayer ::
    "manifest_entry option \<Rightarrow> string \<Rightarrow> string \<Rightarrow> string \<Rightarrow> state \<Rightarrow> error + jsval \<times> state" where
  "copyRootLayer sourceManifest imageName sourceDir destDir st =
     (case sourceManifest of
        None \<Rightarrow> Inl (TypeError ''Config'')
      | Some entry \<Rightarrow>
          (let config = Config entry;
               rootLayerSha = rootLayerSha config;
               destFile = destDir @ ''/work/'' @ imageName @ ''/blobs/sha256:'' @ rootLayerSha
           in case rename (sourceDir @ ''/'' @ config) destFile st of
                Inl e \<Rightarrow> Inl e
              | Inr st' \<Rightarrow>
                  Inr (manifest_literal rootLayerSha (size_of_promise (stat destFile st')),
                       st')))"

text \<open>
  \<open>compressLayer\<close> in two parts. What the call does at once: it names the files and sets
  up the streams, the digester and the handler of the source's \<open>end\<close> event.
\<close>

record layer_task =
  task_object :: nat
  sourceFile :: string
  destTempFile :: string
  task_destDir :: string
  task_imageName :: string

definition compressLayer_start ::
    "nat \<Rightarrow> string \<Rightarrow> string \<Rightarrow> string \<Rightarrow> string \<Rightarrow> layer_task" where
  "compressLayer_start layerJson layerFile imageName sourceDir destDir =
     (let slashPos = indexOf layerFile CHR ''/'';
          sha = substring layerFile 0 slashPos
      in \<lparr>task_object = layerJson,
          sourceFile = sourceDir @ ''/'' @ layerFile,
          destTempFile = destDir @ ''/'' @ sha @ ''.tmp'',
          task_destDir = destDir,
          task_imageName = imageName\<rparr>)"

text \<open>
  What happens later, taken as one step: both files are opened (the source for reading,
  the temporary file for writing, which empties it), the bytes of the source go to the
  temporary file and to the digester, and at the end of the source the handler renames the
  temporary file and fills in the layer object. Neither stream has a listener for
  \<open>error\<close>; the handler is an \<open>async\<close> function whose promise nobody holds.
\<close>

definition compressLayer_end :: "layer_task \<Rightarrow> state \<Rightarrow> failure \<times> state + state" where
  "compressLayer_end t st =
     (case files st (sourceFile t) of
        None \<Rightarrow> Inl (UncaughtException (ENOENT (sourceFile t)), st)
      | Some _ \<Rightarrow>
          (case open_write (destTempFile t) st of
             Inl e \<Rightarrow> Inl (UncaughtException e, st)
           | Inr st1 \<Rightarrow>
               (let bytes = (case files st1 (sourceFile t) of None \<Rightarrow> [] | Some b \<Rightarrow> b);
                    st2 = st1\<lparr>files := (files st1)(destTempFile t \<mapsto> bytes)\<rparr>;
                    sha = sha256_hex bytes;
                    destFileName =
                      task_destDir t @ ''/work/'' @ task_imageName t @ ''/blobs/sha256:'' @ sha
                in case rename (destTempFile t) destFileName st2 of
                     Inl e \<Rightarrow> Inl (UnhandledRejection e, st2)
                   | Inr st3 \<Rightarrow>
                       Inr (st3\<lparr>heap := (heap st3)
                              (task_object t :=
                                 set_prop ''Digest'' (Str (''sha256:'' @ sha))
                                   (set_prop ''Size'' (size_of_promise (stat destFileName st3))
                                      (heap st3 (task_object t))))\<rparr>))))"

definition compressLayer ::
    "nat \<Rightarrow> string \<Rightarrow> string \<Rightarrow> string \<Rightarrow> string \<Rightarrow> state \<Rightarrow> failure \<times> state + state" where
  "compressLayer layerJson layerFile imageName sourceDir destDir st =
     compressLayer_end (compressLayer_start layerJson layerFile imageName sourceDir destDir) st"

text \<open>\<open>manifest.Layers.push(layerJson)\<close>; \<open>None\<close> where \<open>manifest.Layers\<close> is no array.\<close>

definition push_layer :: "jsval \<Rightarrow> jsval \<Rightarrow> jsval option" where
  "push_layer manifest v =
     (case manifest of
        Obj kvs \<Rightarrow>
          (case map_of kvs ''Layers'' of
             Some (Arr xs) \<Rightarrow> Some (Obj (set_prop ''Layers'' (Arr (xs @ [v])) kvs))
           | _ \<Rightarrow> None)
      | _ \<Rightarrow> None)"

text \<open>
  \<open>copyOtherLayers\<close>, first the part that \<open>layers.map\<close> runs at once, layer by layer in
  list order: a new layer object, assigned to \<open>layerJson\<close> and pushed on
  \<open>manifest.Layers\<close>, and the start of \<open>compressLayer\<close> on it.
\<close>

primrec start_layers ::
    "string list \<Rightarrow> string \<Rightarrow> string \<Rightarrow> string \<Rightarrow> jsval \<Rightarrow> state
       \<Rightarrow> (jsval \<times> state \<times> layer_task list) option" where
  "start_layers [] imageName sourceDir destDir manifest st = Some (manifest, st, [])"
| "start_layers (l # ls) imageName sourceDir destDir manifest st =
     (let a = next_addr st;
          st1 = st\<lparr>heap := (heap st)(a := [(''MediaType'', Str LayerType)]),
                   next_addr := a + 1, global_layerJson := Some a\<rparr>
      in case push_layer manifest (Ref a) of
           None \<Rightarrow> None
         | Some manifest1 \<Rightarrow>
             (case start_layers ls imageName sourceDir destDir manifest1 st1 of
                None \<Rightarrow> None
              | Some (m, st', ts) \<Rightarrow>
                  Some (m, st', compressLayer_start a l imageName sourceDir destDir # ts)))"

text \<open>
  Then the streams end, one after another in an order the program does not decide. The
  list of choices decides it here: at each step the number chosen, modulo the number of
  tasks still running, says which of them ends next (the first, when the choices have
  run out). Every order of completion comes from some list of choices. The first failure
  ends the run.
\<close>

function finish_layers :: "nat list \<Rightarrow> layer_task list \<Rightarrow> state \<Rightarrow> failure \<times> state + state" where
  "finish_layers choices pending st =
     (if pending = [] then Inr st
      else
        (let k = (case choices of [] \<Rightarrow> 0 | c # _ \<Rightarrow> c mod length pending) in
         case compressLayer_end (pending ! k) st of
           Inl f \<Rightarrow> Inl f
         | Inr st' \<Rightarrow> finish_layers (tl choices) (take k pending @ drop (Suc k) pending) st'))"
  by pat_completeness auto
termination
  apply (relation "measure (\<lambda>(choices, pending, st). length pending)")
   apply simp
  apply (auto split: list.splits simp: min_def)
  apply (metis length_greater_0_conv mod_less_divisor leD)
  done

declare finish_layers.simps [simp del]

text \<open>
  \<open>Promise.all\<close> is fulfilled when every layer task is. A \<open>push\<close> that throws rejects the
  promise of its callback, and with it \<open>Promise.all\<close>, before any stream is set up.
\<close>

definition copyOtherLayers ::
    "nat list \<Rightarrow> jsval \<Rightarrow> string \<Rightarrow> string list \<Rightarrow> string \<Rightarrow> string \<Rightarrow> state
       \<Rightarrow> failure \<times> state + jsval \<times> state" where
  "copyOtherLayers choices manifest imageName layers sourceDir destDir st =
     (case start_layers layers imageName sourceDir destDir manifest st of
        None \<Rightarrow> Inl (Rejected (TypeError ''push''), st)
      | Some (manifest', st1, tasks) \<Rightarrow>
          (case finish_layers choices tasks st1 of
             Inl f \<Rightarrow> Inl f
           | Inr st2 \<Rightarrow> Inr (manifest', st2)))"

text \<open>
  \<open>writeManifest\<close> does not wait for the write, whose promise nobody holds.
\<close>

definition manifest_document :: "state \<Rightarrow> jsval \<Rightarrow> string" where
  "manifest_document st manifest =
     (case json_text (heap st) manifest of None \<Rightarrow> ''undefined'' | Some t \<Rightarrow> t)"

definition writeManifest :: "jsval \<Rightarrow> string \<Rightarrow> string \<Rightarrow> state \<Rightarrow> failure \<times> state + state" where
  "writeManifest manifest imageName destDir st =
     (let destFile = destDir @ ''/work/'' @ imageName @ ''/manifests/latest-v2'' in
      case writeFile destFile (manifest_document st manifest) st of
        Inl e \<Rightarrow> Inl (UnhandledRejection e, st)
      | Inr st' \<Rightarrow> Inr st')"

text \<open>
  The archive library keeps its own files in \<open>.dat\<close> under the directory it is given;
  only that directory is followed here.
\<close>

definition createDatRepo :: "string \<Rightarrow> state \<Rightarrow> state" where
  "createDatRepo destDir st = st\<lparr>dirs := insert (destDir @ ''/work/.dat'') (dirs st)\<rparr>"

text \<open>\<open>rmdir\<close> (rimraf): the directory goes with all that is below it.\<close>

definition below :: "string \<Rightarrow> string \<Rightarrow> bool" where
  "below d p \<longleftrightarrow> p = d \<or> prefix (d @ ''/'') p"

definition rmdir :: "string \<Rightarrow> state \<Rightarrow> state" where
  "rmdir d st =
     st\<lparr>files := (\<lambda>p. if below d p then None else files st p),
        dirs := {p \<in> dirs st. \<not> below d p}\<rparr>"

text \<open>
  What \<open>run\<close> takes from outside: the characters \<open>mkdtemp\<close> chooses, the files of the
  archive read from the input, \<open>JSON.parse\<close> on the two metadata files (for
  \<open>repositories\<close> the keys of the object, as \<open>Object.keys\<close> lists them), and the order
  in which the layer streams end.
\<close>

record runtime =
  src_chosen :: string
  dest_chosen :: string
  archive :: "(string \<times> string) list"
  parse_repositories :: "string \<Rightarrow> error + string list"
  parse_manifest :: "string \<Rightarrow> error + manifest_entry list"
  completion :: "nat list"

text \<open>
  \<open>run\<close> (lines 239 to 279), with the state in which the process ends; first its part
  from line 248 on, for the two temporary directories. \<open>image\<close> (here \<open>imageKey\<close>) is
  \<open>undefined\<close> when \<open>repositories\<close> has no key, and \<open>simplifyName\<close> then throws on its
  first line; \<open>tag\<close> is not used.
\<close>

definition run_in :: "runtime \<Rightarrow> string \<Rightarrow> string \<Rightarrow> state \<Rightarrow> (failure + string) \<times> state" where
  "run_in rt sourceTempDir destTempDir st3 =
     (case parseRepositories (parse_repositories rt) sourceTempDir st3 of
        Inl e \<Rightarrow> (Inl (Rejected e), st3)
      | Inr repositories \<Rightarrow>
     (case (case repositories of
              [] \<Rightarrow> Inl (TypeError ''lastIndexOf'')
            | imageKey # _ \<Rightarrow> simplifyName imageKey) of
        Inl e \<Rightarrow> (Inl (Rejected e), st3)
      | Inr name \<Rightarrow>
     (let st4 = createDirectoryStructure destTempDir name st3 in
      case parseManifest (parse_manifest rt) sourceTempDir st4 of
        Inl e \<Rightarrow> (Inl (Rejected e), st4)
      | Inr sourceManifest \<Rightarrow>
     (let firstManifest = (case sourceManifest of [] \<Rightarrow> None | m # _ \<Rightarrow> Some m) in
      case copyRootLayer firstManifest name sourceTempDir destTempDir st4 of
        Inl e \<Rightarrow> (Inl (Rejected e), st4)
      | Inr (manifest, st5) \<Rightarrow>
     (let layers = (case firstManifest of None \<Rightarrow> [] | Some m \<Rightarrow> Layers m) in
      case copyOtherLayers (completion rt) manifest name layers sourceTempDir destTempDir st5 of
        Inl (f, st6) \<Rightarrow> (Inl f, st6)
      | Inr (manifest', st6) \<Rightarrow>
     (case writeManifest manifest' name destTempDir st6 of
        Inl (f, st7) \<Rightarrow> (Inl f, st7)
      | Inr st7 \<Rightarrow>
          (Inr (destTempDir @ ''/work''),
           rmdir sourceTempDir (createDatRepo destTempDir st7))))))))"

definition run :: "runtime \<Rightarrow> state \<Rightarrow> (failure + string) \<times> state" where
  "run rt st0 =
     (let (sourceTempDir, st1) = mkdtemp ''image2dat_src_'' (src_chosen rt) st0;
          st2 = untar (archive rt) sourceTempDir st1;
          (destTempDir, st3) = mkdtemp ''image2dat_dest_'' (dest_chosen rt) st2
      in run_in rt sourceTempDir destTempDir st3)"

text \<open>The state in which a step ends, whether it failed or not.\<close>

definition final_state :: "'e \<times> state + state \<Rightarrow> state" where
  "final_state r = (case r of Inl (f, st) \<Rightarrow> st | Inr st \<Rightarrow> st)"

text \<open>The path of a layer blob with the given bytes.\<close>

definition layer_blob :: "string \<Rightarrow> string \<Rightarrow> string \<Rightarrow> string" where
  "layer_blob destDir imageName bytes =
     destDir @ ''/work/'' @ imageName @ ''/blobs/sha256:'' @ sha256_hex bytes"

section \<open>Digests as the specification writes them\<close>

text \<open>\<open>sha256:<64-hex>\<close>: the prefix and 64 lowercase hexadecimal digits.\<close>

definition is_hex64 :: "string \<Rightarrow> bool" where
  "is_hex64 d \<longleftrightarrow> length d = 64 \<and> list_all (\<lambda>c. c \<in> set ''0123456789abcdef'') d"


text \<open>The characters that occur in some numeric literal, or around it.\<close>

definition numeric_char :: "char \<Rightarrow> bool" where
  "numeric_char c \<longleftrightarrow> is_whitespace c \<or> c \<in> set ''0123456789abcdefABCDEFxXoOInity+-.''"

section \<open>A small bundle\<close>

text \<open>
  A state to run the operations on: an extracted bundle under \<open>src\<close> (a config file and
  two layers) and the prepared destination tree under \<open>dst\<close> for the image \<open>app\<close>.
\<close>

definition example_state :: state where
  "example_state =
     \<lparr>files = [''src/c0ffee.json'' \<mapsto> ''{}'',
               ''src/aa11/layer.tar'' \<mapsto> ''abc'',
               ''src/bb22/layer.tar'' \<mapsto> ''wxyz''],
      dirs = {''src'', ''src/aa11'', ''src/bb22'', ''dst'', ''dst/work'', ''dst/work/app'',
              ''dst/work/app/manifests'', ''dst/work/app/blobs''},
      heap = (\<lambda>a. []),
      next_addr = 0,
      global_layerJson = None\<rparr>"

definition example_entry :: manifest_entry where
  "example_entry = \<lparr>Config = ''c0ffee.json'', Layers = [''aa11/layer.tar'', ''bb22/layer.tar'']\<rparr>"

text \<open>
  The same bundle as the input of a run in an empty working directory; the second layer
  ends first. In \<open>broken_runtime\<close> the manifest lists a layer that the archive does not
  hold.
\<close>

definition empty_state :: state where
  "empty_state =
     \<lparr>files = Map.empty, dirs = {}, heap = (\<lambda>a. []), next_addr = 0, global_layerJson = None\<rparr>"

definition example_runtime :: runtime where
  "example_runtime =
     \<lparr>src_chosen = ''Ab12Cd'',
      dest_chosen = ''Xy89Zw'',
      archive = [(''repositories'', ''(repositories)''),
                 (''manifest.json'', ''(manifest list)''),
                 (''c0ffee.json'', ''{}''),
                 (''aa11/layer.tar'', ''abc''),
                 (''bb22/layer.tar'', ''wxyz'')],
      parse_repositories = (\<lambda>content. Inr [''app'']),
      parse_manifest = (\<lambda>content. Inr [example_entry]),
      completion = [1]\<rparr>"


text \<open>
  A bundle whose image has a config and no layer, and the text of the manifest that the
  specification's key names would not give.
\<close>

definition minimal_runtime :: runtime where
  "minimal_runtime =
     example_runtime
       \<lparr>parse_manifest := (\<lambda>content. Inr [\<lparr>Config = ''c0ffee.json'', Layers = []\<rparr>])\<rparr>"

definition minimal_document :: string where
  "minimal_document =
     ''{'' @ quote ''SchemaVersion'' @ '':2,''
       @ quote ''MediaType'' @ '':''
       @ quote ''application/vnd.docker.distribution.manifest.v2+json'' @ '',''
       @ quote ''Config'' @ '':{''
       @ quote ''MediaType'' @ '':''
       @ quote ''application/vnd.docker.container.image.v1+json'' @ '',''
       @ quote ''Digest'' @ '':'' @ quote ''sha256:c0ffee'' @ ''},''
       @ quote ''Layers'' @ '':[]}''"

chapter \<open>Properties\<close>

section \<open>Strings\<close>

lemma indexOf_neg_iff: "indexOf s c < 0 \<longleftrightarrow> c \<notin> set s"
  by (induction s) (auto simp: Let_def)

lemma indexOf_less_length: "indexOf s c < int (length s)"
  by (induction s) (auto simp: Let_def)

lemma lastIndexOf_neg_iff: "lastIndexOf s c < 0 \<longleftrightarrow> c \<notin> set s"
  using indexOf_neg_iff [of "rev s" c] indexOf_less_length [of "rev s" c]
  by (auto simp: lastIndexOf_def Let_def)

lemma take_indexOf:
  "c \<in> set s \<Longrightarrow> take (nat (indexOf s c)) s = takeWhile (\<lambda>x. x \<noteq> c) s"
proof (induction s)
  case Nil
  then show ?case by simp
next
  case (Cons a s)
  show ?case
  proof (cases "a = c")
    case True
    then show ?thesis by simp
  next
    case False
    with Cons.prems have in_s: "c \<in> set s" by simp
    then have "0 \<le> indexOf s c" using indexOf_neg_iff [of s c] by auto
    then show ?thesis using False Cons.IH [OF in_s]
      by (simp add: Let_def nat_add_distrib)
  qed
qed

lemma substring_indexOf:
  "substring s 0 (indexOf s c) = (if c \<in> set s then takeWhile (\<lambda>x. x \<noteq> c) s else [])"
proof (cases "c \<in> set s")
  case True
  then have "0 \<le> indexOf s c" using indexOf_neg_iff [of s c] by auto
  then show ?thesis
    using True indexOf_less_length [of s c] take_indexOf [of c s]
    by (simp add: substring_def Let_def min_def max_def)
next
  case False
  then have "indexOf s c < 0" by (simp add: indexOf_neg_iff)
  then show ?thesis using False
    by (simp add: substring_def Let_def min_def max_def)
qed

lemma substring_indexOf_free: "c \<notin> set (substring s 0 (indexOf s c))"
  unfolding substring_indexOf by (auto dest: set_takeWhileD)

lemma substr_zero: "substr s (Fin 0) (Fin n) = take (nat n) s"
  by (auto simp: substr_def substr_start_def Let_def min_def max_def)

section \<open>Strings as numbers\<close>

lemma in_dropWhile: "c \<in> set s \<Longrightarrow> \<not> P c \<Longrightarrow> c \<in> set (dropWhile P s)"
  by (induction s) auto

lemma in_trim: "c \<in> set s \<Longrightarrow> \<not> is_whitespace c \<Longrightarrow> c \<in> set (trim s)"
  by (simp add: trim_def in_dropWhile)

lemma in_drop1: "c \<in> set xs \<Longrightarrow> c \<noteq> hd xs \<Longrightarrow> c \<in> set (drop 1 xs)"
  by (cases xs) auto

lemma in_drop2: "c \<in> set xs \<Longrightarrow> c \<notin> set (take 2 xs) \<Longrightarrow> c \<in> set (drop 2 xs)"
  by (metis Un_iff append_take_drop_id set_append)

lemma digit_of_Some: "digit_of c = Some d \<Longrightarrow> c \<in> set ''0123456789abcdefABCDEF''"
proof -
  assume a: "digit_of c = Some d"
  define n :: int where "n = of_char c"
  have c: "c = char_of n" by (simp add: n_def)
  from a have "(48 \<le> n \<and> n \<le> 57) \<or> (97 \<le> n \<and> n \<le> 102) \<or> (65 \<le> n \<and> n \<le> 70)"
    by (auto simp: digit_of_def Let_def n_def split: if_splits)
  then have "n \<in> {48, 49, 50, 51, 52, 53, 54, 55, 56, 57, 97, 98, 99, 100, 101, 102, 65, 66, 67, 68, 69, 70}"
    unfolding insert_iff empty_iff by presburger
  then show ?thesis unfolding c by (elim insertE emptyE) (simp_all add: char_of_def)
qed

lemma is_digit_numeric: "is_digit b c \<Longrightarrow> numeric_char c"
  using digit_of_Some [of c] by (auto simp: is_digit_def numeric_char_def split: option.splits)

lemma is_digits_numeric: "is_digits b ds \<Longrightarrow> c \<in> set ds \<Longrightarrow> numeric_char c"
  by (auto simp: is_digits_def list_all_iff is_digit_numeric)

lemma radix_literal_NaN: "c \<in> set ds \<Longrightarrow> \<not> numeric_char c \<Longrightarrow> radix_literal b ds = NaN"
  using is_digits_numeric by (auto simp: radix_literal_def)

lemma exponent_value_None: "c \<in> set x \<Longrightarrow> \<not> numeric_char c \<Longrightarrow> exponent_value x = None"
proof -
  assume a: "c \<in> set x" "\<not> numeric_char c"
  have nd: "\<not> is_digits 10 ds" if "c \<in> set ds" for ds
    using that a(2) is_digits_numeric by blast
  have ne: "c \<noteq> CHR ''+''" "c \<noteq> CHR ''-''"
    using a(2) by (auto simp: numeric_char_def)
  show ?thesis
  proof (cases x)
    case Nil
    then show ?thesis by (simp add: exponent_value_def)
  next
    case (Cons h ds)
    have "h = CHR ''+'' \<or> h = CHR ''-'' \<Longrightarrow> \<not> is_digits 10 ds"
      using a(1) ne Cons by (intro nd) auto
    moreover have "\<not> is_digits 10 (h # ds)"
      using a(1) Cons by (intro nd) auto
    ultimately show ?thesis by (auto simp: exponent_value_def Cons)
  qed
qed

lemma unsigned_decimal_None:
  assumes "c \<in> set u" "\<not> numeric_char c"
  shows "unsigned_decimal u = None"
proof -
  let ?P = "\<lambda>c. \<not> is_exp_char c"
  let ?Q = "\<lambda>c. c \<noteq> CHR ''.''"
  let ?mant = "takeWhile ?P u" and ?rest = "dropWhile ?P u"
  let ?ip = "takeWhile ?Q ?mant" and ?fp = "drop 1 (dropWhile ?Q ?mant)"
  have ne: "c \<noteq> CHR ''.''" "c \<noteq> CHR ''e''" "c \<noteq> CHR ''E''"
    using assms(2) by (auto simp: numeric_char_def)
  have nd: "\<not> is_digit 10 c" using assms(2) is_digit_numeric [of 10 c] by auto
  have "c \<in> set ?mant \<or> c \<in> set ?rest"
    using assms(1) by (metis Un_iff set_append takeWhile_dropWhile_id)
  then show ?thesis
  proof
    assume "c \<in> set ?mant"
    then have "c \<in> set ?ip \<or> c \<in> set (dropWhile ?Q ?mant)"
      by (metis Un_iff set_append takeWhile_dropWhile_id)
    then have "c \<in> set ?ip \<or> c \<in> set ?fp"
    proof
      assume "c \<in> set (dropWhile ?Q ?mant)"
      moreover have "hd (dropWhile ?Q ?mant) = CHR ''.''"
        using calculation hd_dropWhile [of ?Q ?mant] by (cases "dropWhile ?Q ?mant = []") auto
      ultimately show ?thesis using ne in_drop1 by metis
    qed simp
    then have "\<not> (list_all (is_digit 10) ?ip \<and> list_all (is_digit 10) ?fp)"
      using nd by (auto simp: list_all_iff)
    then show ?thesis unfolding unsigned_decimal_def Let_def by auto
  next
    assume r: "c \<in> set ?rest"
    then have "is_exp_char (hd ?rest)"
      using hd_dropWhile [of ?P u] by (cases "?rest = []") auto
    then have "c \<in> set (drop 1 ?rest)"
      using r ne in_drop1 [of c ?rest] by (auto simp: is_exp_char_def)
    then have "exponent_value (drop 1 ?rest) = None"
      using assms(2) exponent_value_None by blast
    moreover have "?rest \<noteq> []" by (metis r empty_iff list.set(1))
    ultimately show ?thesis unfolding unsigned_decimal_def Let_def by auto
  qed
qed

lemma signed_decimal_NaN: "c \<in> set u \<Longrightarrow> \<not> numeric_char c \<Longrightarrow> signed_decimal neg u = NaN"
  using unsigned_decimal_None [of c u]
  by (auto simp: signed_decimal_def numeric_char_def)

lemma StringToNumber_NaN:
  assumes "c \<in> set s" "\<not> numeric_char c"
  shows "StringToNumber s = NaN"
proof -
  let ?t = "trim s"
  have t: "c \<in> set ?t" using assms by (simp add: in_trim numeric_char_def)
  then have ne: "?t \<noteq> []" by auto
  have two: "take 2 ?t \<in> {''0x'', ''0X'', ''0o'', ''0O'', ''0b'', ''0B''} \<Longrightarrow> c \<in> set (drop 2 ?t)"
    using t assms(2) by (intro in_drop2) (auto simp: numeric_char_def)
  have one: "take 1 ?t \<in> {''+'', ''-''} \<Longrightarrow> c \<in> set (drop 1 ?t)"
    using t assms(2) ne by (intro in_drop1) (auto simp: numeric_char_def take_Suc)
  show ?thesis
    unfolding StringToNumber_def Let_def
    using ne two one t assms(2) radix_literal_NaN [of c "drop 2 ?t"] signed_decimal_NaN [of c]
    by auto
qed


lemma string_position_NaN: "c \<in> set s \<Longrightarrow> \<not> numeric_char c \<Longrightarrow> string_position s = Fin 0"
  by (simp add: string_position_def StringToNumber_NaN ToIntegerOrInfinity_def)


section \<open>simplifyName\<close>

lemma content_unbound: "module_scope ''content'' = None"
  by (simp add: module_scope_def)

lemma simplifyName_eq:
  "simplifyName imageName =
     (if CHR ''/'' \<in> set imageName then Inl (ReferenceError ''content'') else Inr imageName)"
  using lastIndexOf_neg_iff [of imageName "CHR ''/''"]
  by (auto simp: simplifyName_def simplifyName_in_def content_unbound Let_def)

section \<open>rootLayerSha\<close>

lemma rootLayerSha_position_zero:
  "string_position config = Fin 0 \<Longrightarrow> rootLayerSha config = take (length config - 5) config"
  by (simp add: rootLayerSha_def substr_zero nat_diff_distrib')

lemma rootLayerSha_NaN:
  "StringToNumber config = NaN \<Longrightarrow> rootLayerSha config = take (length config - 5) config"
  by (simp add: rootLayerSha_position_zero string_position_def ToIntegerOrInfinity_def)

lemma rootLayerSha_json: "rootLayerSha (h @ ''.json'') = h"
proof -
  have "StringToNumber (h @ ''.json'') = NaN"
    by (rule StringToNumber_NaN [of "CHR ''j''"]) (simp_all add: numeric_char_def is_whitespace_def)
  then show ?thesis by (simp add: rootLayerSha_NaN)
qed






text \<open>
  A separator within the last five characters is dropped with them, and what is left can
  be a well-formed digest.
\<close>

lemma rootLayerSha_directory_digest:
  "rootLayerSha (replicate 64 CHR ''a'' @ ''/json'') = replicate 64 CHR ''a''"
proof -
  have "StringToNumber (replicate 64 CHR ''a'' @ ''/json'') = NaN"
    by (rule StringToNumber_NaN [of "CHR ''/''"]) (simp_all add: numeric_char_def is_whitespace_def)
  then show ?thesis by (simp add: rootLayerSha_NaN)
qed

text \<open>
  Claim C6 at a reference with a registry host and port: the call does not return the
  remainder \<open>team/app\<close>, it throws at line 93, where \<open>content\<close> is read.
\<close>

theorem simplifyName_registry_reference:
  "simplifyName ''registry.example.com:5000/team/app'' = Inl (ReferenceError ''content'')"
  by (simp add: simplifyName_eq)

text \<open>
  Claim C7 at a reference with one separator: \<open>simplifyName\<close> throws.
\<close>

theorem simplifyName_throws:
  "simplifyName ''library/ubuntu'' = Inl (ReferenceError ''content'')"
  by (simp add: simplifyName_eq)


section \<open>SHA-256: the form of the digest\<close>

lemma hex_char_lower: "hex_char w \<in> set ''0123456789abcdef''"
proof -
  have "unat (w AND 15) \<le> unat (15 :: word32)"
    by (rule word_and_le1 [THEN word_le_nat_alt [THEN iffD1]])
  then have "unat (w AND 15) < length ''0123456789abcdef''" by simp
  then show ?thesis unfolding hex_char_def by (rule nth_mem)
qed

lemma length_hex32: "length (hex32 w) = 8"
  by (simp add: hex32_def)

lemma set_hex32: "set (hex32 w) \<subseteq> set ''0123456789abcdef''"
  unfolding hex32_def using hex_char_lower by auto

lemma sha256_hex_form:
  "\<exists>a b c d e f g h. sha256_hex bytes = concat (map hex32 [a, b, c, d, e, f, g, h])"
proof -
  obtain a b c d e f gh where "sha256 (map of_char bytes) = (a, b, c, d, e, f, gh)"
    by (cases "sha256 (map of_char bytes)" rule: prod_cases7)
  moreover obtain g h where "gh = (g, h)" by (cases gh)
  ultimately have "sha256_hex bytes = concat (map hex32 [a, b, c, d, e, f, g, h])"
    unfolding sha256_hex_def by (simp only: prod.case)
  then show ?thesis by blast
qed

lemma length_sha256_hex: "length (sha256_hex bytes) = 64"
  using sha256_hex_form [of bytes] by (auto simp: length_hex32)

lemma set_sha256_hex: "set (sha256_hex bytes) \<subseteq> set ''0123456789abcdef''"
proof -
  obtain a b c d e f g h where "sha256_hex bytes = concat (map hex32 [a, b, c, d, e, f, g, h])"
    using sha256_hex_form by blast
  then have "set (sha256_hex bytes) = (\<Union>w \<in> {a, b, c, d, e, f, g, h}. set (hex32 w))"
    by simp
  then show ?thesis using set_hex32 by blast
qed

text \<open>The function agrees with the standard's example for the message \<open>abc\<close>.\<close>

lemma sha256_hex_abc:
  "sha256_hex ''abc'' = ''ba7816bf8f01cfea414140de5dae2223b00361a396177a9cb410ff61f20015ad''"
  by code_simp

lemma is_hex64_sha256_hex: "is_hex64 (sha256_hex bytes)"
  unfolding is_hex64_def list_all_iff
  by (rule conjI [OF length_sha256_hex]) (use set_sha256_hex in blast)

section \<open>Objects\<close>

lemma map_of_set_prop: "map_of (set_prop k v ob) = (map_of ob)(k \<mapsto> v)"
  by (induction ob) (auto simp: fun_eq_iff)

lemma set_prop_twice: "set_prop k v (set_prop k w ob) = set_prop k v ob"
  by (induction ob) auto

section \<open>compressLayer\<close>

lemma compressLayer_end_Inr:
  assumes "compressLayer_end t st = Inr st'"
  obtains bytes where
    "files st' = (files st)(destTempFile t := None,
        task_destDir t @ ''/work/'' @ task_imageName t @ ''/blobs/sha256:'' @ sha256_hex bytes \<mapsto> bytes)"
    "((files st)(destTempFile t \<mapsto> [])) (sourceFile t) = Some bytes"
    "heap st' = (heap st)(task_object t :=
        set_prop ''Digest'' (Str (''sha256:'' @ sha256_hex bytes))
          (set_prop ''Size'' Undefined (heap st (task_object t))))"
    "dirs st' = dirs st" "next_addr st' = next_addr st"
    "files st (sourceFile t) \<noteq> None"
  using assms
  by (auto simp: compressLayer_end_def open_write_def rename_def size_of_promise_def Let_def
      split: option.splits if_splits sum.splits)



lemma indexOf_append: "c \<notin> set xs \<Longrightarrow> indexOf (xs @ c # ys) c = int (length xs)"
  by (induction xs) (auto simp: Let_def)

lemma dirname_slash: "CHR ''/'' \<notin> set x \<Longrightarrow> dirname (d @ CHR ''/'' # x) = d"
  using indexOf_append [of "CHR ''/''" "rev x" "rev d"]
  by (simp add: dirname_def lastIndexOf_def Let_def)

lemma dirname_temp: "dirname (destTempFile (compressLayer_start a l n s d)) = d"
  using substring_indexOf_free [of "CHR ''/''" l]
  by (simp add: compressLayer_start_def Let_def dirname_slash)

lemma dirname_blob:
  "dirname (d @ ''/work/'' @ n @ ''/blobs/sha256:'' @ sha256_hex b) = d @ ''/work/'' @ n @ ''/blobs''"
proof -
  have "CHR ''/'' \<notin> set (''sha256:'' @ sha256_hex b)"
    using set_sha256_hex [of b] by auto
  then have "dirname ((d @ ''/work/'' @ n @ ''/blobs'') @ CHR ''/'' # (''sha256:'' @ sha256_hex b))
      = d @ ''/work/'' @ n @ ''/blobs''"
    by (rule dirname_slash)
  then show ?thesis by simp
qed

lemma compressLayer_end_succeeds:
  assumes "files st (sourceFile t) \<noteq> None"
    and "dir_exists st (dirname (destTempFile t))"
    and "task_destDir t @ ''/work/'' @ task_imageName t @ ''/blobs'' \<in> dirs st"
  shows "\<exists>st'. compressLayer_end t st = Inr st'"
  using assms
  by (auto simp: compressLayer_end_def open_write_def rename_def Let_def
      dirname_blob [simplified] dir_exists_def split: option.splits)

lemma compressLayer_succeeds:
  assumes "files st (sourceDir @ ''/'' @ layerFile) \<noteq> None"
    and "destDir \<in> dirs st"
    and "destDir @ ''/work/'' @ imageName @ ''/blobs'' \<in> dirs st"
  shows "\<exists>st'. compressLayer layerJson layerFile imageName sourceDir destDir st = Inr st'"
  unfolding compressLayer_def
proof (rule compressLayer_end_succeeds)
  let ?t = "compressLayer_start layerJson layerFile imageName sourceDir destDir"
  show "files st (sourceFile ?t) \<noteq> None"
    using assms(1) by (simp add: compressLayer_start_def Let_def)
  show "dir_exists st (dirname (destTempFile ?t))"
    using assms(2) by (simp add: dirname_temp dir_exists_def)
  show "task_destDir ?t @ ''/work/'' @ task_imageName ?t @ ''/blobs'' \<in> dirs st"
    using assms(3) by (simp add: compressLayer_start_def Let_def)
qed


section \<open>copyRootLayer\<close>

lemma copyRootLayer_Inr:
  assumes "copyRootLayer (Some entry) imageName sourceDir destDir st = Inr (manifest, st')"
  obtains bytes where
    "manifest =
       Obj [(''SchemaVersion'', Prim (Num 2)),
            (''MediaType'', Prim (Str ManifestType)),
            (''Config'',
               Obj [(''MediaType'', Prim (Str ConfigType)),
                    (''Digest'', Prim (Str (''sha256:'' @ rootLayerSha (Config entry)))),
                    (''Size'', Prim Undefined)]),
            (''Layers'', Arr [])]"
    "files st (sourceDir @ ''/'' @ Config entry) = Some bytes"
    "files st' = (files st)(sourceDir @ ''/'' @ Config entry := None,
        destDir @ ''/work/'' @ imageName @ ''/blobs/sha256:'' @ rootLayerSha (Config entry) \<mapsto> bytes)"
    "dirs st' = dirs st" "heap st' = heap st" "next_addr st' = next_addr st"
  using assms
  by (auto simp: copyRootLayer_def manifest_literal_def rename_def size_of_promise_def
      ManifestVersion_def Let_def split: option.splits if_splits sum.splits)

text \<open>
  Claim C2. The config blob and every layer blob end up at
  \<open><destDir>/work/<imageName>/blobs/sha256:<digest>\<close>, with the digest that the blob's own
  descriptor records.
\<close>

theorem blob_path_is_descriptor_digest:
  "(copyRootLayer (Some entry) imageName sourceDir destDir st = Inr (manifest, st') \<longrightarrow>
      (\<exists>digest bytes.
          manifest =
            Obj [(''SchemaVersion'', Prim (Num 2)),
                 (''MediaType'', Prim (Str ManifestType)),
                 (''Config'',
                    Obj [(''MediaType'', Prim (Str ConfigType)),
                         (''Digest'', Prim (Str (''sha256:'' @ digest))),
                         (''Size'', Prim Undefined)]),
                 (''Layers'', Arr [])]
          \<and> files st (sourceDir @ ''/'' @ Config entry) = Some bytes
          \<and> files st' (destDir @ ''/work/'' @ imageName @ ''/blobs/sha256:'' @ digest) = Some bytes))
   \<and> (compressLayer layerJson layerFile imageName sourceDir destDir st = Inr st'' \<longrightarrow>
      (\<exists>digest bytes.
          map_of (heap st'' layerJson) ''Digest'' = Some (Str (''sha256:'' @ digest))
          \<and> files st'' (destDir @ ''/work/'' @ imageName @ ''/blobs/sha256:'' @ digest) = Some bytes))"
proof (intro conjI impI)
  assume "copyRootLayer (Some entry) imageName sourceDir destDir st = Inr (manifest, st')"
  then obtain bytes where
    "manifest =
       Obj [(''SchemaVersion'', Prim (Num 2)),
            (''MediaType'', Prim (Str ManifestType)),
            (''Config'',
               Obj [(''MediaType'', Prim (Str ConfigType)),
                    (''Digest'', Prim (Str (''sha256:'' @ rootLayerSha (Config entry)))),
                    (''Size'', Prim Undefined)]),
            (''Layers'', Arr [])]"
    "files st (sourceDir @ ''/'' @ Config entry) = Some bytes"
    "files st' = (files st)(sourceDir @ ''/'' @ Config entry := None,
        destDir @ ''/work/'' @ imageName @ ''/blobs/sha256:'' @ rootLayerSha (Config entry) \<mapsto> bytes)"
    by (rule copyRootLayer_Inr)
  then show "\<exists>digest bytes.
          manifest =
            Obj [(''SchemaVersion'', Prim (Num 2)),
                 (''MediaType'', Prim (Str ManifestType)),
                 (''Config'',
                    Obj [(''MediaType'', Prim (Str ConfigType)),
                         (''Digest'', Prim (Str (''sha256:'' @ digest))),
                         (''Size'', Prim Undefined)]),
                 (''Layers'', Arr [])]
          \<and> files st (sourceDir @ ''/'' @ Config entry) = Some bytes
          \<and> files st' (destDir @ ''/work/'' @ imageName @ ''/blobs/sha256:'' @ digest) = Some bytes"
    by (intro exI [of _ "rootLayerSha (Config entry)"] exI [of _ bytes]) simp
next
  let ?t = "compressLayer_start layerJson layerFile imageName sourceDir destDir"
  assume "compressLayer layerJson layerFile imageName sourceDir destDir st = Inr st''"
  then have "compressLayer_end ?t st = Inr st''" by (simp add: compressLayer_def)
  then obtain bytes where
    f: "files st'' = (files st)(destTempFile ?t := None,
        task_destDir ?t @ ''/work/'' @ task_imageName ?t @ ''/blobs/sha256:'' @ sha256_hex bytes \<mapsto> bytes)"
    and h: "heap st'' = (heap st)(task_object ?t :=
        set_prop ''Digest'' (Str (''sha256:'' @ sha256_hex bytes))
          (set_prop ''Size'' Undefined (heap st (task_object ?t))))"
    by (rule compressLayer_end_Inr)
  show "\<exists>digest bytes.
          map_of (heap st'' layerJson) ''Digest'' = Some (Str (''sha256:'' @ digest))
          \<and> files st'' (destDir @ ''/work/'' @ imageName @ ''/blobs/sha256:'' @ digest) = Some bytes"
    by (intro exI [of _ "sha256_hex bytes"] exI [of _ bytes])
      (simp add: f h compressLayer_start_def Let_def map_of_set_prop)
qed

lemma copyRootLayer_example:
  "\<exists>st'. copyRootLayer (Some example_entry) ''app'' ''src'' ''dst'' example_state =
     Inr (Obj [(''SchemaVersion'', Prim (Num 2)),
               (''MediaType'', Prim (Str ManifestType)),
               (''Config'',
                  Obj [(''MediaType'', Prim (Str ConfigType)),
                       (''Digest'', Prim (Str ''sha256:c0ffee'')),
                       (''Size'', Prim Undefined)]),
               (''Layers'', Arr [])], st')
     \<and> files st' ''dst/work/app/blobs/sha256:c0ffee'' = Some ''{}''"
  using rootLayerSha_json [of "''c0ffee''"]
  by (simp add: copyRootLayer_def manifest_literal_def example_entry_def example_state_def
      rename_def dir_exists_def dirname_def lastIndexOf_def size_of_promise_def
      ManifestVersion_def Let_def)

theorem blob_path_is_descriptor_digest_witness:
  "\<exists>manifest st' st''.
     copyRootLayer (Some example_entry) ''app'' ''src'' ''dst'' example_state = Inr (manifest, st')
     \<and> compressLayer 0 ''aa11/layer.tar'' ''app'' ''src'' ''dst'' example_state = Inr st''
     \<and> (\<exists>digest bytes.
          map_of (heap st'' 0) ''Digest'' = Some (Str (''sha256:'' @ digest))
          \<and> files st'' (''dst'' @ ''/work/'' @ ''app'' @ ''/blobs/sha256:'' @ digest) = Some bytes)
     \<and> (\<exists>digest bytes.
          manifest =
            Obj [(''SchemaVersion'', Prim (Num 2)),
                 (''MediaType'', Prim (Str ManifestType)),
                 (''Config'',
                    Obj [(''MediaType'', Prim (Str ConfigType)),
                         (''Digest'', Prim (Str (''sha256:'' @ digest))),
                         (''Size'', Prim Undefined)]),
                 (''Layers'', Arr [])]
          \<and> files example_state (''src'' @ ''/'' @ Config example_entry) = Some bytes
          \<and> files st' (''dst'' @ ''/work/'' @ ''app'' @ ''/blobs/sha256:'' @ digest) = Some bytes)"
proof -
  obtain manifest st' where
    c: "copyRootLayer (Some example_entry) ''app'' ''src'' ''dst'' example_state = Inr (manifest, st')"
    using copyRootLayer_example by blast
  have "\<exists>st''. compressLayer 0 ''aa11/layer.tar'' ''app'' ''src'' ''dst'' example_state = Inr st''"
    by (rule compressLayer_succeeds) (simp_all add: example_state_def)
  then obtain st'' where
    l: "compressLayer 0 ''aa11/layer.tar'' ''app'' ''src'' ''dst'' example_state = Inr st''" ..
  show ?thesis
    using c l blob_path_is_descriptor_digest [of example_entry "''app''" "''src''" "''dst''"
        example_state manifest st' 0 "''aa11/layer.tar''" st'']
    by blast
qed

text \<open>
  Claim C4 on the small bundle: the config descriptor and the layer descriptor both get
  the size \<open>undefined\<close>, while a \<open>stat\<close> of the blob files gives 2 and 3 bytes.
\<close>

theorem size_is_undefined_not_stat:
  "\<exists>manifest st' st''.
     copyRootLayer (Some example_entry) ''app'' ''src'' ''dst'' example_state = Inr (manifest, st')
     \<and> manifest =
          Obj [(''SchemaVersion'', Prim (Num 2)),
               (''MediaType'', Prim (Str ManifestType)),
               (''Config'',
                  Obj [(''MediaType'', Prim (Str ConfigType)),
                       (''Digest'', Prim (Str ''sha256:c0ffee'')),
                       (''Size'', Prim Undefined)]),
               (''Layers'', Arr [])]
     \<and> stat ''dst/work/app/blobs/sha256:c0ffee'' st' = Inr 2
     \<and> compressLayer 0 ''aa11/layer.tar'' ''app'' ''src'' ''dst'' example_state = Inr st''
     \<and> map_of (heap st'' 0) ''Size'' = Some Undefined
     \<and> stat (''dst/work/app/blobs/sha256:'' @ sha256_hex ''abc'') st'' = Inr 3"
proof -
  obtain st' where
    c: "copyRootLayer (Some example_entry) ''app'' ''src'' ''dst'' example_state =
     Inr (Obj [(''SchemaVersion'', Prim (Num 2)),
               (''MediaType'', Prim (Str ManifestType)),
               (''Config'',
                  Obj [(''MediaType'', Prim (Str ConfigType)),
                       (''Digest'', Prim (Str ''sha256:c0ffee'')),
                       (''Size'', Prim Undefined)]),
               (''Layers'', Arr [])], st')"
    and f: "files st' ''dst/work/app/blobs/sha256:c0ffee'' = Some ''{}''"
    using copyRootLayer_example by blast
  let ?t = "compressLayer_start 0 ''aa11/layer.tar'' ''app'' ''src'' ''dst''"
  have "\<exists>st''. compressLayer 0 ''aa11/layer.tar'' ''app'' ''src'' ''dst'' example_state = Inr st''"
    by (rule compressLayer_succeeds) (simp_all add: example_state_def)
  then obtain st'' where
    l: "compressLayer 0 ''aa11/layer.tar'' ''app'' ''src'' ''dst'' example_state = Inr st''" ..
  then have "compressLayer_end ?t example_state = Inr st''" by (simp add: compressLayer_def)
  then obtain bytes where
    lf: "files st'' = (files example_state)(destTempFile ?t := None,
        task_destDir ?t @ ''/work/'' @ task_imageName ?t @ ''/blobs/sha256:'' @ sha256_hex bytes \<mapsto> bytes)"
    and lb: "((files example_state)(destTempFile ?t \<mapsto> [])) (sourceFile ?t) = Some bytes"
    and lh: "heap st'' = (heap example_state)(task_object ?t :=
        set_prop ''Digest'' (Str (''sha256:'' @ sha256_hex bytes))
          (set_prop ''Size'' Undefined (heap example_state (task_object ?t))))"
    by (rule compressLayer_end_Inr)
  from lb have b: "bytes = ''abc''"
    by (simp add: compressLayer_start_def example_state_def substring_def Let_def)
  have "map_of (heap st'' 0) ''Size'' = Some Undefined"
    by (simp add: lh compressLayer_start_def Let_def map_of_set_prop)
  moreover have "stat (''dst/work/app/blobs/sha256:'' @ sha256_hex ''abc'') st'' = Inr 3"
    by (simp add: stat_def lf b compressLayer_start_def Let_def)
  moreover have "stat ''dst/work/app/blobs/sha256:c0ffee'' st' = Inr 2"
    by (simp add: stat_def f)
  ultimately show ?thesis using c l by blast
qed

section \<open>copyOtherLayers\<close>

lemma push_layer_Some:
  "map_of kvs ''Layers'' = Some (Arr xs) \<Longrightarrow>
   push_layer (Obj kvs) v = Some (Obj (set_prop ''Layers'' (Arr (xs @ [v])) kvs))"
  by (simp add: push_layer_def)

lemma set_prop_same: "map_of ob k = Some v \<Longrightarrow> set_prop k v ob = ob"
  by (induction ob) (auto split: if_splits)

lemma start_layers_props:
  assumes "map_of kvs ''Layers'' = Some (Arr xs)"
  shows "\<exists>st'. start_layers ls n s d (Obj kvs) st =
           Some (Obj (set_prop ''Layers''
                   (Arr (xs @ map Ref [next_addr st..<next_addr st + length ls])) kvs),
                 st',
                 map2 (\<lambda>a l. compressLayer_start a l n s d)
                   [next_addr st..<next_addr st + length ls] ls)
         \<and> files st' = files st \<and> dirs st' = dirs st
         \<and> (\<forall>a. heap st' a =
               (if next_addr st \<le> a \<and> a < next_addr st + length ls
                then [(''MediaType'', Str LayerType)] else heap st a))"
  using assms
proof (induction ls arbitrary: kvs xs st)
  case Nil
  then show ?case by (auto simp: set_prop_same)
next
  case (Cons l ls)
  let ?a = "next_addr st"
  let ?st1 = "st\<lparr>heap := (heap st)(?a := [(''MediaType'', Str LayerType)]),
                  next_addr := ?a + 1, global_layerJson := Some ?a\<rparr>"
  let ?kvs1 = "set_prop ''Layers'' (Arr (xs @ [Ref ?a])) kvs"
  have m1: "map_of ?kvs1 ''Layers'' = Some (Arr (xs @ [Ref ?a]))"
    by (simp add: map_of_set_prop)
  from Cons.IH [OF m1, of ?st1] obtain st' where
    r: "start_layers ls n s d (Obj ?kvs1) ?st1 =
           Some (Obj (set_prop ''Layers''
                   (Arr ((xs @ [Ref ?a]) @ map Ref [Suc ?a..<Suc ?a + length ls])) ?kvs1),
                 st',
                 map2 (\<lambda>a l. compressLayer_start a l n s d) [Suc ?a..<Suc ?a + length ls] ls)"
    and f: "files st' = files st" "dirs st' = dirs st"
    and h: "\<forall>a. heap st' a =
               (if Suc ?a \<le> a \<and> a < Suc ?a + length ls
                then [(''MediaType'', Str LayerType)] else heap ?st1 a)"
    by auto
  have "?a < ?a + length (l # ls)" by simp
  then have "[?a..<?a + length (l # ls)] = ?a # [Suc ?a..<?a + length (l # ls)]"
    by (rule upt_conv_Cons)
  moreover have "?a + length (l # ls) = Suc ?a + length ls" by simp
  ultimately have u: "[?a..<?a + length (l # ls)] = ?a # [Suc ?a..<Suc ?a + length ls]"
    by (simp only:)
  have "start_layers (l # ls) n s d (Obj kvs) st =
           Some (Obj (set_prop ''Layers''
                   (Arr (xs @ map Ref [?a..<?a + length (l # ls)])) kvs),
                 st',
                 map2 (\<lambda>a l. compressLayer_start a l n s d) [?a..<?a + length (l # ls)] (l # ls))"
    unfolding u using r push_layer_Some [OF Cons.prems, of "Ref ?a"]
    by (simp add: Let_def set_prop_twice)
  moreover have "\<forall>a. heap st' a =
               (if ?a \<le> a \<and> a < ?a + length (l # ls)
                then [(''MediaType'', Str LayerType)] else heap st a)"
    using h by auto
  ultimately show ?case using f by blast
qed


lemma rest_member:
  "k < length ts \<Longrightarrow> x \<in> set ts \<Longrightarrow> x \<noteq> ts ! k \<Longrightarrow> x \<in> set (take k ts @ drop (Suc k) ts)"
  using id_take_nth_drop [of k ts] by (metis Un_iff set_ConsD set_append)

lemma rest_subset: "set (take k ts @ drop (Suc k) ts) \<subseteq> set ts"
  using set_take_subset [of k ts] set_drop_subset [of "Suc k" ts] by auto

lemma rest_distinct:
  assumes "distinct (map f ts)" "k < length ts"
  shows "distinct (map f (take k ts @ drop (Suc k) ts))"
    and "f (ts ! k) \<notin> f ` set (take k ts @ drop (Suc k) ts)"
proof -
  have "distinct (map f (take k ts @ ts ! k # drop (Suc k) ts))"
    using assms id_take_nth_drop [of k ts] by simp
  then show "distinct (map f (take k ts @ drop (Suc k) ts))"
    and "f (ts ! k) \<notin> f ` set (take k ts @ drop (Suc k) ts)"
    by auto
qed

lemma pick_less:
  "ts \<noteq> [] \<Longrightarrow> (case cs of [] \<Rightarrow> 0 | c # _ \<Rightarrow> c mod length ts) < length ts"
  by (cases cs) auto

lemma compressLayer_end_Inl:
  assumes "compressLayer_end t st = Inl (f, st')"
  shows "dirs st' = dirs st" "heap st' = heap st"
    and "\<forall>p. p \<noteq> destTempFile t \<longrightarrow> files st' p = files st p"
  using assms
  by (auto simp: compressLayer_end_def open_write_def rename_def Let_def
      split: option.splits if_splits sum.splits)

lemma compressLayer_end_footprint:
  "dirs (final_state (compressLayer_end t st)) = dirs st
   \<and> (\<forall>p. p \<noteq> destTempFile t \<longrightarrow> (\<forall>b. p \<noteq> layer_blob (task_destDir t) (task_imageName t) b) \<longrightarrow>
          files (final_state (compressLayer_end t st)) p = files st p)"
proof (cases "compressLayer_end t st")
  case (Inl a)
  then obtain f st' where "compressLayer_end t st = Inl (f, st')" by (cases a) auto
  then show ?thesis using compressLayer_end_Inl [of t st f st'] by (simp add: final_state_def)
next
  case (Inr st')
  then show ?thesis
    by (rule compressLayer_end_Inr) (auto simp: final_state_def layer_blob_def Inr)
qed

lemma finish_layers_footprint:
  assumes "\<forall>t\<in>set ts. task_destDir t = D \<and> task_imageName t = n"
  shows "dirs (final_state (finish_layers cs ts st)) = dirs st
   \<and> (\<forall>p. (\<forall>t\<in>set ts. p \<noteq> destTempFile t) \<longrightarrow> (\<forall>b. p \<noteq> layer_blob D n b) \<longrightarrow>
          files (final_state (finish_layers cs ts st)) p = files st p)"
  using assms
proof (induction cs ts st rule: finish_layers.induct)
  case (1 cs ts st)
  show ?case
  proof (cases "ts = []")
    case True
    then show ?thesis by (simp add: finish_layers.simps final_state_def)
  next
    case False
    define k where "k = (case cs of [] \<Rightarrow> 0 | c # _ \<Rightarrow> c mod length ts)"
    have k: "k < length ts" unfolding k_def using False by (rule pick_less)
    then have tk: "ts ! k \<in> set ts" by simp
    have fp: "dirs (final_state (compressLayer_end (ts ! k) st)) = dirs st
      \<and> (\<forall>p. p \<noteq> destTempFile (ts ! k) \<longrightarrow> (\<forall>b. p \<noteq> layer_blob D n b) \<longrightarrow>
          files (final_state (compressLayer_end (ts ! k) st)) p = files st p)"
      using compressLayer_end_footprint [of "ts ! k" st] "1.prems" tk by simp
    show ?thesis
    proof (cases "compressLayer_end (ts ! k) st")
      case (Inl a)
      then have "finish_layers cs ts st = compressLayer_end (ts ! k) st"
        using False by (simp add: finish_layers.simps [of cs ts st] k_def Let_def)
      then show ?thesis using fp tk by auto
    next
      case (Inr st1)
      let ?rest = "take k ts @ drop (Suc k) ts"
      have c: "finish_layers cs ts st = finish_layers (tl cs) ?rest st1"
        using False Inr by (simp add: finish_layers.simps [of cs ts st] k_def Let_def)
      have "\<forall>t\<in>set ?rest. task_destDir t = D \<and> task_imageName t = n"
        using "1.prems" rest_subset [of k ts] by blast
      from "1.IH" [OF False k_def Inr this]
      have ih: "dirs (final_state (finish_layers (tl cs) ?rest st1)) = dirs st1
        \<and> (\<forall>p. (\<forall>t\<in>set ?rest. p \<noteq> destTempFile t) \<longrightarrow> (\<forall>b. p \<noteq> layer_blob D n b) \<longrightarrow>
          files (final_state (finish_layers (tl cs) ?rest st1)) p = files st1 p)" .
      have st1: "final_state (compressLayer_end (ts ! k) st) = st1"
        by (simp add: Inr final_state_def)
      show ?thesis
        unfolding c using ih fp tk rest_subset [of k ts] unfolding st1 by (metis subsetD)
    qed
  qed
qed


lemma finish_layers_Inr:
  assumes "finish_layers cs ts st = Inr st'"
    and "distinct (map task_object ts)"
    and "\<forall>t\<in>set ts. \<forall>t'\<in>set ts. sourceFile t \<noteq> destTempFile t'
           \<and> (\<forall>b. sourceFile t \<noteq> layer_blob (task_destDir t') (task_imageName t') b)"
  shows "(\<forall>t\<in>set ts. \<exists>bytes. files st (sourceFile t) = Some bytes
            \<and> heap st' (task_object t) =
                set_prop ''Digest'' (Str (''sha256:'' @ sha256_hex bytes))
                  (set_prop ''Size'' Undefined (heap st (task_object t))))
         \<and> (\<forall>a. a \<notin> task_object ` set ts \<longrightarrow> heap st' a = heap st a)"
  using assms
proof (induction cs ts st rule: finish_layers.induct)
  case (1 cs ts st)
  show ?case
  proof (cases "ts = []")
    case True
    then show ?thesis using "1.prems"(1) by (simp add: finish_layers.simps)
  next
    case False
    define k where "k = (case cs of [] \<Rightarrow> 0 | c # _ \<Rightarrow> c mod length ts)"
    have k: "k < length ts" unfolding k_def using False by (rule pick_less)
    then have tk: "ts ! k \<in> set ts" by simp
    let ?t = "ts ! k"
    let ?rest = "take k ts @ drop (Suc k) ts"
    obtain st1 where e: "compressLayer_end ?t st = Inr st1"
      and c: "finish_layers (tl cs) ?rest st1 = Inr st'"
      using "1.prems"(1) False
      by (auto simp: finish_layers.simps [of cs ts st] k_def Let_def split: sum.splits)
    from e obtain bytes where
      f1: "files st1 = (files st)(destTempFile ?t := None,
        task_destDir ?t @ ''/work/'' @ task_imageName ?t @ ''/blobs/sha256:'' @ sha256_hex bytes \<mapsto> bytes)"
      and b: "((files st)(destTempFile ?t \<mapsto> [])) (sourceFile ?t) = Some bytes"
      and h1: "heap st1 = (heap st)(task_object ?t :=
        set_prop ''Digest'' (Str (''sha256:'' @ sha256_hex bytes))
          (set_prop ''Size'' Undefined (heap st (task_object ?t))))"
      by (rule compressLayer_end_Inr)
    have sub: "set ?rest \<subseteq> set ts" by (rule rest_subset)
    have d: "distinct (map task_object ?rest)" "task_object ?t \<notin> task_object ` set ?rest"
      using rest_distinct [OF "1.prems"(2) k] by auto
    have sep: "\<forall>t\<in>set ?rest. \<forall>t'\<in>set ?rest. sourceFile t \<noteq> destTempFile t'
           \<and> (\<forall>b. sourceFile t \<noteq> layer_blob (task_destDir t') (task_imageName t') b)"
      using "1.prems"(3) sub by blast
    from "1.IH" [OF False k_def e c d(1) sep]
    have ih1: "\<forall>t\<in>set ?rest. \<exists>bytes. files st1 (sourceFile t) = Some bytes
            \<and> heap st' (task_object t) =
                set_prop ''Digest'' (Str (''sha256:'' @ sha256_hex bytes))
                  (set_prop ''Size'' Undefined (heap st1 (task_object t)))"
      and ih2: "\<forall>a. a \<notin> task_object ` set ?rest \<longrightarrow> heap st' a = heap st1 a"
      by auto
    have src: "files st1 (sourceFile t) = files st (sourceFile t)" if "t \<in> set ts" for t
      using "1.prems"(3) that tk by (auto simp: f1 layer_blob_def)
    have "\<exists>bytes. files st (sourceFile t) = Some bytes
            \<and> heap st' (task_object t) =
                set_prop ''Digest'' (Str (''sha256:'' @ sha256_hex bytes))
                  (set_prop ''Size'' Undefined (heap st (task_object t)))"
      if t: "t \<in> set ts" for t
    proof (cases "t = ?t")
      case True
      have "sourceFile ?t \<noteq> destTempFile ?t" using "1.prems"(3) tk by blast
      with b have "files st (sourceFile ?t) = Some bytes" by simp
      moreover have "heap st' (task_object ?t) = heap st1 (task_object ?t)"
        using ih2 d(2) by blast
      ultimately show ?thesis unfolding True by (simp add: h1)
    next
      case False
      then have r: "t \<in> set ?rest" using rest_member [OF k t] by simp
      have "task_object t \<noteq> task_object ?t" using d(2) r by (metis imageI)
      then have hh: "heap st1 (task_object t) = heap st (task_object t)" by (simp add: h1)
      from ih1 r obtain bs where
        bs: "files st1 (sourceFile t) = Some bs"
          "heap st' (task_object t) =
             set_prop ''Digest'' (Str (''sha256:'' @ sha256_hex bs))
               (set_prop ''Size'' Undefined (heap st1 (task_object t)))"
        by blast
      show ?thesis using bs src [OF t] hh by (intro exI [of _ bs]) simp
    qed
    moreover have "heap st' a = heap st a" if a: "a \<notin> task_object ` set ts" for a
    proof -
      have "a \<notin> task_object ` set ?rest" using a sub by blast
      then have "heap st' a = heap st1 a" using ih2 by blast
      moreover have "a \<noteq> task_object ?t" using a tk by blast
      ultimately show ?thesis by (simp add: h1)
    qed
    ultimately show ?thesis by blast
  qed
qed


lemma finish_layers_succeeds:
  assumes "\<forall>t\<in>set ts. files st (sourceFile t) \<noteq> None"
    and "\<forall>t\<in>set ts. dir_exists st (dirname (destTempFile t))
           \<and> task_destDir t @ ''/work/'' @ task_imageName t @ ''/blobs'' \<in> dirs st"
    and "\<forall>t\<in>set ts. \<forall>t'\<in>set ts. sourceFile t \<noteq> destTempFile t'
           \<and> (\<forall>b. sourceFile t \<noteq> layer_blob (task_destDir t') (task_imageName t') b)"
  shows "\<exists>st'. finish_layers cs ts st = Inr st'"
  using assms
proof (induction cs ts st rule: finish_layers.induct)
  case (1 cs ts st)
  show ?case
  proof (cases "ts = []")
    case True
    then show ?thesis by (simp add: finish_layers.simps)
  next
    case ne: False
    define k where "k = (case cs of [] \<Rightarrow> 0 | c # _ \<Rightarrow> c mod length ts)"
    have k: "k < length ts" unfolding k_def using ne by (rule pick_less)
    then have tk: "ts ! k \<in> set ts" by simp
    let ?t = "ts ! k"
    let ?rest = "take k ts @ drop (Suc k) ts"
    have "\<exists>st1. compressLayer_end ?t st = Inr st1"
      using "1.prems"(1,2) tk by (intro compressLayer_end_succeeds) auto
    then obtain st1 where e: "compressLayer_end ?t st = Inr st1" ..
    then have c: "finish_layers cs ts st = finish_layers (tl cs) ?rest st1"
      using ne by (simp add: finish_layers.simps [of cs ts st] k_def Let_def)
    from e obtain bytes where
      f1: "files st1 = (files st)(destTempFile ?t := None,
        task_destDir ?t @ ''/work/'' @ task_imageName ?t @ ''/blobs/sha256:'' @ sha256_hex bytes \<mapsto> bytes)"
      and d1: "dirs st1 = dirs st"
      by (rule compressLayer_end_Inr)
    have sub: "set ?rest \<subseteq> set ts" by (rule rest_subset)
    have src: "files st1 (sourceFile t) = files st (sourceFile t)" if "t \<in> set ts" for t
      using "1.prems"(3) that tk by (auto simp: f1 layer_blob_def)
    have p1: "\<forall>t\<in>set ?rest. files st1 (sourceFile t) \<noteq> None"
      using "1.prems"(1) sub src by auto
    have p2: "\<forall>t\<in>set ?rest. dir_exists st1 (dirname (destTempFile t))
           \<and> task_destDir t @ ''/work/'' @ task_imageName t @ ''/blobs'' \<in> dirs st1"
      using "1.prems"(2) sub by (auto simp: d1 dir_exists_def)
    have p3: "\<forall>t\<in>set ?rest. \<forall>t'\<in>set ?rest. sourceFile t \<noteq> destTempFile t'
           \<and> (\<forall>b. sourceFile t \<noteq> layer_blob (task_destDir t') (task_imageName t') b)"
      using "1.prems"(3) sub by blast
    from "1.IH" [OF ne k_def e p1 p2 p3] show ?thesis unfolding c .
  qed
qed


lemma started_task:
  assumes "t \<in> set (map2 (\<lambda>a l. compressLayer_start a l n s d) as ls)"
  obtains a l where "l \<in> set ls" "t = compressLayer_start a l n s d"
  using assms by (auto dest: set_zip_rightD)

lemma started_objects:
  "length as = length ls \<Longrightarrow>
   map task_object (map2 (\<lambda>a l. compressLayer_start a l n s d) as ls) = as"
  by (induction as ls rule: list_induct2) (simp_all add: compressLayer_start_def Let_def)

lemma started_separate:
  assumes "\<forall>l\<in>set ls. \<not> prefix (d @ ''/'') (s @ ''/'' @ l)"
  shows "\<forall>t\<in>set (map2 (\<lambda>a l. compressLayer_start a l n s d) as ls).
         \<forall>t'\<in>set (map2 (\<lambda>a l. compressLayer_start a l n s d) as ls).
           sourceFile t \<noteq> destTempFile t'
           \<and> (\<forall>b. sourceFile t \<noteq> layer_blob (task_destDir t') (task_imageName t') b)"
proof (intro ballI)
  fix t t'
  assume "t \<in> set (map2 (\<lambda>a l. compressLayer_start a l n s d) as ls)"
    and "t' \<in> set (map2 (\<lambda>a l. compressLayer_start a l n s d) as ls)"
  then obtain a l a' l' where l: "l \<in> set ls" and t: "t = compressLayer_start a l n s d"
    and t': "t' = compressLayer_start a' l' n s d"
    by (metis started_task)
  have np: "\<not> prefix (d @ ''/'') (sourceFile t)"
    using assms l by (simp add: t compressLayer_start_def Let_def)
  have "prefix (d @ ''/'') (destTempFile t')"
    by (simp add: t' compressLayer_start_def Let_def)
  moreover have "prefix (d @ ''/'') (layer_blob (task_destDir t') (task_imageName t') b)" for b
    by (simp add: t' compressLayer_start_def Let_def layer_blob_def)
  ultimately show "sourceFile t \<noteq> destTempFile t'
           \<and> (\<forall>b. sourceFile t \<noteq> layer_blob (task_destDir t') (task_imageName t') b)"
    using np by metis
qed

lemma started_ready:
  assumes "d \<in> dirs st" "d @ ''/work/'' @ n @ ''/blobs'' \<in> dirs st"
  shows "\<forall>t\<in>set (map2 (\<lambda>a l. compressLayer_start a l n s d) as ls).
           dir_exists st (dirname (destTempFile t))
           \<and> task_destDir t @ ''/work/'' @ task_imageName t @ ''/blobs'' \<in> dirs st"
proof
  fix t
  assume "t \<in> set (map2 (\<lambda>a l. compressLayer_start a l n s d) as ls)"
  then obtain a l where t: "t = compressLayer_start a l n s d" by (metis started_task)
  have "dirname (destTempFile t) = d" unfolding t by (rule dirname_temp)
  moreover have "task_destDir t = d" "task_imageName t = n"
    by (simp_all add: t compressLayer_start_def Let_def)
  ultimately show "dir_exists st (dirname (destTempFile t))
           \<and> task_destDir t @ ''/work/'' @ task_imageName t @ ''/blobs'' \<in> dirs st"
    using assms by (simp add: dir_exists_def)
qed

lemma copyOtherLayers_succeeds:
  assumes "map_of kvs ''Layers'' = Some (Arr xs)"
    and "\<forall>l\<in>set layers. files st (sourceDir @ ''/'' @ l) \<noteq> None"
    and "destDir \<in> dirs st"
    and "destDir @ ''/work/'' @ imageName @ ''/blobs'' \<in> dirs st"
    and "\<forall>l\<in>set layers. \<not> prefix (destDir @ ''/'') (sourceDir @ ''/'' @ l)"
  shows "\<exists>manifest' st'.
    copyOtherLayers choices (Obj kvs) imageName layers sourceDir destDir st = Inr (manifest', st')"
proof -
  let ?as = "[next_addr st..<next_addr st + length layers]"
  let ?ts = "map2 (\<lambda>a l. compressLayer_start a l imageName sourceDir destDir) ?as layers"
  from start_layers_props [OF assms(1), of layers imageName sourceDir destDir st]
  obtain m st1 where
    s: "start_layers layers imageName sourceDir destDir (Obj kvs) st = Some (m, st1, ?ts)"
    and f: "files st1 = files st" "dirs st1 = dirs st"
    by blast
  have "\<forall>t\<in>set ?ts. files st1 (sourceFile t) \<noteq> None"
  proof
    fix t assume "t \<in> set ?ts"
    then obtain a l where "l \<in> set layers"
      "t = compressLayer_start a l imageName sourceDir destDir"
      by (metis started_task)
    then show "files st1 (sourceFile t) \<noteq> None"
      using assms(2) by (simp add: f compressLayer_start_def Let_def)
  qed
  moreover have "\<forall>t\<in>set ?ts. dir_exists st1 (dirname (destTempFile t))
           \<and> task_destDir t @ ''/work/'' @ task_imageName t @ ''/blobs'' \<in> dirs st1"
    using assms(3,4) by (intro started_ready) (simp_all add: f)
  ultimately have "\<exists>st'. finish_layers choices ?ts st1 = Inr st'"
    using started_separate [OF assms(5)] by (intro finish_layers_succeeds) blast+
  then show ?thesis by (auto simp: copyOtherLayers_def s)
qed

lemma copyOtherLayers_Inr:
  assumes "copyOtherLayers choices (Obj kvs) imageName layers sourceDir destDir st
             = Inr (manifest', st')"
    and "map_of kvs ''Layers'' = Some (Arr [])"
    and "\<forall>l\<in>set layers. \<not> prefix (destDir @ ''/'') (sourceDir @ ''/'' @ l)"
  shows "\<exists>refs. manifest' = Obj (set_prop ''Layers'' (Arr refs) kvs)
           \<and> length refs = length layers
           \<and> (\<forall>i<length layers. \<exists>a bytes.
                 refs ! i = Ref a
                 \<and> files st (sourceDir @ ''/'' @ layers ! i) = Some bytes
                 \<and> heap st' a = [(''MediaType'', Str LayerType), (''Size'', Undefined),
                                 (''Digest'', Str (''sha256:'' @ sha256_hex bytes))])"
proof -
  let ?a0 = "next_addr st"
  let ?as = "[?a0..<?a0 + length layers]"
  let ?ts = "map2 (\<lambda>a l. compressLayer_start a l imageName sourceDir destDir) ?as layers"
  from start_layers_props [OF assms(2), of layers imageName sourceDir destDir st]
  obtain st1 where
    s: "start_layers layers imageName sourceDir destDir (Obj kvs) st =
          Some (Obj (set_prop ''Layers'' (Arr (map Ref ?as)) kvs), st1, ?ts)"
    and f: "files st1 = files st"
    and h: "\<forall>a. heap st1 a =
               (if ?a0 \<le> a \<and> a < ?a0 + length layers
                then [(''MediaType'', Str LayerType)] else heap st a)"
    by auto
  from assms(1) have m: "manifest' = Obj (set_prop ''Layers'' (Arr (map Ref ?as)) kvs)"
    and c: "finish_layers choices ?ts st1 = Inr st'"
    by (auto simp: copyOtherLayers_def s split: sum.splits)
  have "map task_object ?ts = ?as"
    by (rule started_objects) simp
  then have d: "distinct (map task_object ?ts)"
    by (simp only: distinct_upt)
  from finish_layers_Inr [OF c d started_separate [OF assms(3)]]
  have r: "\<forall>t\<in>set ?ts. \<exists>bytes. files st1 (sourceFile t) = Some bytes
            \<and> heap st' (task_object t) =
                set_prop ''Digest'' (Str (''sha256:'' @ sha256_hex bytes))
                  (set_prop ''Size'' Undefined (heap st1 (task_object t)))"
    by blast
  have "\<exists>a bytes. map Ref ?as ! i = Ref a
                 \<and> files st (sourceDir @ ''/'' @ layers ! i) = Some bytes
                 \<and> heap st' a = [(''MediaType'', Str LayerType), (''Size'', Undefined),
                                 (''Digest'', Str (''sha256:'' @ sha256_hex bytes))]"
    if i: "i < length layers" for i
  proof -
    let ?t = "compressLayer_start (?a0 + i) (layers ! i) imageName sourceDir destDir"
    have "?ts ! i = ?t" using i by simp
    moreover have "i < length ?ts" using i by simp
    ultimately have "?t \<in> set ?ts" by (metis nth_mem)
    with r obtain bytes where
      b: "files st1 (sourceFile ?t) = Some bytes"
      and hh: "heap st' (task_object ?t) =
                set_prop ''Digest'' (Str (''sha256:'' @ sha256_hex bytes))
                  (set_prop ''Size'' Undefined (heap st1 (task_object ?t)))"
      by blast
    have "heap st1 (?a0 + i) = [(''MediaType'', Str LayerType)]" using h i by simp
    then have "heap st' (?a0 + i) = [(''MediaType'', Str LayerType), (''Size'', Undefined),
                                 (''Digest'', Str (''sha256:'' @ sha256_hex bytes))]"
      using hh by (simp add: compressLayer_start_def Let_def)
    moreover have "files st (sourceDir @ ''/'' @ layers ! i) = Some bytes"
      using b by (simp add: f compressLayer_start_def Let_def)
    moreover have "map Ref ?as ! i = Ref (?a0 + i)" using i by simp
    ultimately show ?thesis by blast
  qed
  then show ?thesis using m by (intro exI [of _ "map Ref ?as"]) simp
qed

text \<open>
  Claim C3. Whatever the order in which the layer streams end, \<open>manifest.Layers\<close> holds
  one descriptor for each layer of the source list, and the descriptor at position \<open>i\<close>
  is the one of the \<open>i\<close>-th source layer: its digest is the hash of that layer's file.
\<close>

theorem layers_keep_source_order:
  assumes "copyOtherLayers choices (Obj kvs) imageName layers sourceDir destDir st
             = Inr (manifest', st')"
    and "map_of kvs ''Layers'' = Some (Arr [])"
    and "\<forall>l\<in>set layers. \<not> prefix (destDir @ ''/'') (sourceDir @ ''/'' @ l)"
  shows "\<exists>refs. manifest' = Obj (set_prop ''Layers'' (Arr refs) kvs)
           \<and> length refs = length layers
           \<and> (\<forall>i<length layers. \<exists>a bytes.
                 refs ! i = Ref a
                 \<and> files st (sourceDir @ ''/'' @ layers ! i) = Some bytes
                 \<and> heap st' a = [(''MediaType'', Str LayerType), (''Size'', Undefined),
                                 (''Digest'', Str (''sha256:'' @ sha256_hex bytes))])"
  using assms by (rule copyOtherLayers_Inr)

theorem layers_keep_source_order_witness:
  "\<exists>manifest' st'.
     copyOtherLayers [1] (Obj [(''Layers'', Arr [])]) ''app'' [''aa11/layer.tar'', ''bb22/layer.tar'']
        ''src'' ''dst'' example_state = Inr (manifest', st')
     \<and> map_of [(''Layers'', Arr [])] ''Layers'' = Some (Arr [])
     \<and> \<not> prefix (''dst'' @ ''/'') (''src'' @ ''/'' @ ''aa11/layer.tar'')
     \<and> \<not> prefix (''dst'' @ ''/'') (''src'' @ ''/'' @ ''bb22/layer.tar'')
     \<and> (\<exists>refs. manifest' = Obj (set_prop ''Layers'' (Arr refs) [(''Layers'', Arr [])])
           \<and> length refs = 2
           \<and> (\<exists>a. refs ! 0 = Ref a
                 \<and> heap st' a = [(''MediaType'', Str LayerType), (''Size'', Undefined),
                                 (''Digest'', Str (''sha256:'' @ sha256_hex ''abc''))])
           \<and> (\<exists>a. refs ! 1 = Ref a
                 \<and> heap st' a = [(''MediaType'', Str LayerType), (''Size'', Undefined),
                                 (''Digest'', Str (''sha256:'' @ sha256_hex ''wxyz''))]))"
proof -
  let ?kvs = "[(''Layers'', Arr [])]"
  let ?ls = "[''aa11/layer.tar'', ''bb22/layer.tar'']"
  have m: "map_of ?kvs ''Layers'' = Some (Arr [])" by simp
  have p: "\<forall>l\<in>set ?ls. \<not> prefix (''dst'' @ ''/'') (''src'' @ ''/'' @ l)" by simp
  have "\<exists>manifest' st'.
    copyOtherLayers [1] (Obj ?kvs) ''app'' ?ls ''src'' ''dst'' example_state = Inr (manifest', st')"
    by (rule copyOtherLayers_succeeds [OF m _ _ _ p]) (simp_all add: example_state_def)
  then obtain manifest' st' where
    c: "copyOtherLayers [1] (Obj ?kvs) ''app'' ?ls ''src'' ''dst'' example_state = Inr (manifest', st')"
    by blast
  from layers_keep_source_order [OF c m p] obtain refs where
    r: "manifest' = Obj (set_prop ''Layers'' (Arr refs) ?kvs)" "length refs = length ?ls"
    and d: "\<forall>i<length ?ls. \<exists>a bytes.
                 refs ! i = Ref a
                 \<and> files example_state (''src'' @ ''/'' @ ?ls ! i) = Some bytes
                 \<and> heap st' a = [(''MediaType'', Str LayerType), (''Size'', Undefined),
                                 (''Digest'', Str (''sha256:'' @ sha256_hex bytes))]"
    by blast
  from d [rule_format, of 0] d [rule_format, of 1]
  have "\<exists>a. refs ! 0 = Ref a
                 \<and> heap st' a = [(''MediaType'', Str LayerType), (''Size'', Undefined),
                                 (''Digest'', Str (''sha256:'' @ sha256_hex ''abc''))]"
    and "\<exists>a. refs ! 1 = Ref a
                 \<and> heap st' a = [(''MediaType'', Str LayerType), (''Size'', Undefined),
                                 (''Digest'', Str (''sha256:'' @ sha256_hex ''wxyz''))]"
    by (auto simp: example_state_def)
  then show ?thesis using c r m p by (intro exI [of _ manifest'] exI [of _ st']) auto
qed

section \<open>The stages of run\<close>

lemma untar_files:
  "distinct (map fst ents) \<Longrightarrow>
   files (untar ents d st) (d @ ''/'' @ r) =
     (case map_of ents r of None \<Rightarrow> files st (d @ ''/'' @ r) | Some b \<Rightarrow> Some b)"
proof (induction ents arbitrary: st)
  case Nil
  then show ?case by simp
next
  case (Cons e es)
  show ?case
  proof (cases "map_of es r")
    case None
    then show ?thesis using Cons by (simp add: Let_def mkdir_recursive_def)
  next
    case (Some b)
    then have "r \<in> fst ` set es" by (metis map_of_eq_None_iff option.distinct(1))
    then have "r \<noteq> fst e" using Cons.prems by (metis distinct.simps(2) list.simps(9) set_map)
    then show ?thesis using Cons Some by (simp add: Let_def)
  qed
qed


lemma untar_dirs: "x \<in> dirs st \<Longrightarrow> x \<in> dirs (untar ents d st)"
  by (induction ents arbitrary: st) (simp_all add: Let_def mkdir_recursive_def)

lemma untar_heap: "heap (untar ents d st) = heap st \<and> next_addr (untar ents d st) = next_addr st"
  by (induction ents arbitrary: st) (simp_all add: Let_def mkdir_recursive_def)

lemma path_prefixes_self: "p \<in> set (path_prefixes p)"
  by (simp add: path_prefixes_def)

lemma createDirectoryStructure_props:
  "files (createDirectoryStructure d n st) = files st"
  "heap (createDirectoryStructure d n st) = heap st"
  "next_addr (createDirectoryStructure d n st) = next_addr st"
  "x \<in> dirs st \<Longrightarrow> x \<in> dirs (createDirectoryStructure d n st)"
  "d @ ''/work/'' @ n @ ''/blobs'' \<in> dirs (createDirectoryStructure d n st)"
  "d @ ''/work/'' @ n @ ''/manifests'' \<in> dirs (createDirectoryStructure d n st)"
  using path_prefixes_self [of "d @ ''/work/'' @ n @ ''/blobs''"]
    path_prefixes_self [of "d @ ''/work/'' @ n @ ''/manifests''"]
  by (simp_all add: createDirectoryStructure_def mkdir_recursive_def)


lemma dirname_sha256:
  assumes "CHR ''/'' \<notin> set x"
  shows "dirname (d @ ''/work/'' @ n @ ''/blobs/sha256:'' @ x) = d @ ''/work/'' @ n @ ''/blobs''"
proof -
  have "CHR ''/'' \<notin> set (''sha256:'' @ x)" using assms by simp
  then have "dirname ((d @ ''/work/'' @ n @ ''/blobs'') @ CHR ''/'' # (''sha256:'' @ x))
      = d @ ''/work/'' @ n @ ''/blobs''"
    by (rule dirname_slash)
  then show ?thesis by simp
qed

lemma dirname_manifest:
  "dirname (d @ ''/work/'' @ n @ ''/manifests/latest-v2'') = d @ ''/work/'' @ n @ ''/manifests''"
proof -
  have "dirname ((d @ ''/work/'' @ n @ ''/manifests'') @ CHR ''/'' # ''latest-v2'')
      = d @ ''/work/'' @ n @ ''/manifests''"
    by (rule dirname_slash) simp
  then show ?thesis by simp
qed

lemma run_in_reaches_layers:
  assumes "files st3 (src @ ''/'' @ ''repositories'') = Some rbytes"
    and "parse_repositories rt rbytes = Inr (imageKey # moreKeys)"
    and "CHR ''/'' \<notin> set imageKey"
    and "files st3 (src @ ''/'' @ ''manifest.json'') = Some mbytes"
    and "parse_manifest rt mbytes = Inr (entry # others)"
    and "files st3 (src @ ''/'' @ Config entry) = Some cbytes"
    and "CHR ''/'' \<notin> set (rootLayerSha (Config entry))"
  shows "run_in rt src dst st3 =
    (case copyOtherLayers (completion rt)
            (manifest_literal (rootLayerSha (Config entry)) Undefined) imageKey (Layers entry)
            src dst
            ((createDirectoryStructure dst imageKey st3)
               \<lparr>files := (files st3)(src @ ''/'' @ Config entry := None,
                   dst @ ''/work/'' @ imageKey @ ''/blobs/sha256:'' @ rootLayerSha (Config entry)
                     \<mapsto> cbytes)\<rparr>) of
       Inl (f, st6) \<Rightarrow> (Inl f, st6)
     | Inr (manifest', st6) \<Rightarrow>
         (case writeManifest manifest' imageKey dst st6 of
            Inl (f, st7) \<Rightarrow> (Inl f, st7)
          | Inr st7 \<Rightarrow> (Inr (dst @ ''/work''), rmdir src (createDatRepo dst st7))))"
proof -
  let ?st4 = "createDirectoryStructure dst imageKey st3"
  have pr: "parseRepositories (parse_repositories rt) src st3 = Inr (imageKey # moreKeys)"
    using assms(1,2) by (simp add: parseRepositories_def parseJsonFromFile_def readFile_def)
  have sn: "simplifyName imageKey = Inr imageKey"
    using assms(3) by (simp add: simplifyName_eq)
  have pm: "parseManifest (parse_manifest rt) src ?st4 = Inr (entry # others)"
    using assms(4,5)
    by (simp add: parseManifest_def parseJsonFromFile_def readFile_def
        createDirectoryStructure_props)
  have "dir_exists ?st4
     (dirname (dst @ ''/work/'' @ imageKey @ ''/blobs/sha256:'' @ rootLayerSha (Config entry)))"
    using createDirectoryStructure_props(5) [of dst imageKey st3]
    by (simp only: dirname_sha256 [OF assms(7)] dir_exists_def simp_thms)
  then have cr: "copyRootLayer (Some entry) imageKey src dst ?st4 =
      Inr (manifest_literal (rootLayerSha (Config entry)) Undefined,
           ?st4\<lparr>files := (files st3)(src @ ''/'' @ Config entry := None,
                   dst @ ''/work/'' @ imageKey @ ''/blobs/sha256:'' @ rootLayerSha (Config entry)
                     \<mapsto> cbytes)\<rparr>)"
    using assms(6)
    by (simp add: copyRootLayer_def rename_def Let_def size_of_promise_def
        createDirectoryStructure_props)
  show ?thesis
    unfolding run_in_def by (simp add: pr sn pm cr Let_def)
qed






lemma run_unfold:
  "run rt st0 =
     run_in rt (''image2dat_src_'' @ src_chosen rt) (''image2dat_dest_'' @ dest_chosen rt)
       ((untar (archive rt) (''image2dat_src_'' @ src_chosen rt)
           (st0\<lparr>dirs := insert (''image2dat_src_'' @ src_chosen rt) (dirs st0)\<rparr>))
          \<lparr>dirs := insert (''image2dat_dest_'' @ dest_chosen rt)
             (dirs (untar (archive rt) (''image2dat_src_'' @ src_chosen rt)
                (st0\<lparr>dirs := insert (''image2dat_src_'' @ src_chosen rt) (dirs st0)\<rparr>)))\<rparr>)"
  by (simp add: run_def mkdtemp_def Let_def)

lemma temp_dirs_apart:
  "\<not> prefix ((''image2dat_dest_'' @ b) @ ''/'') ((''image2dat_src_'' @ a) @ ''/'' @ x)"
  "\<not> prefix ((''image2dat_src_'' @ a) @ ''/'') ((''image2dat_dest_'' @ b) @ ''/'' @ x)"
  "prefix ''image2dat_'' ((''image2dat_src_'' @ a) @ x)"
  "prefix ''image2dat_'' ((''image2dat_dest_'' @ b) @ x)"
  by simp_all

lemma compressLayer_missing_source:
  "files st (sourceDir @ ''/'' @ layerFile) = None \<Longrightarrow>
   compressLayer layerJson layerFile imageName sourceDir destDir st =
     Inl (UncaughtException (ENOENT (sourceDir @ ''/'' @ layerFile)), st)"
  by (simp add: compressLayer_def compressLayer_start_def compressLayer_end_def Let_def)




section \<open>The manifest document\<close>

lemma copyRootLayer_None: "copyRootLayer None n s d st = Inl (TypeError ''Config'')"
  by (simp add: copyRootLayer_def)

lemma run_in_Inr:
  assumes "run_in rt src dst st3 = (Inr path, st')"
  shows "\<exists>name entry manifest st5 manifest' st6 st7.
    copyRootLayer (Some entry) name src dst (createDirectoryStructure dst name st3)
       = Inr (manifest, st5)
    \<and> copyOtherLayers (completion rt) manifest name (Layers entry) src dst st5
       = Inr (manifest', st6)
    \<and> writeManifest manifest' name dst st6 = Inr st7
    \<and> path = dst @ ''/work''
    \<and> st' = rmdir src (createDatRepo dst st7)"
  using assms
  by (auto simp: run_in_def Let_def copyRootLayer_None split: sum.splits list.splits) blast+

lemma layer_object_text:
  assumes "h a = [(''MediaType'', Str LayerType), (''Size'', Undefined), (''Digest'', Str d)]"
  shows "json_text h (Ref a) =
         json_text h0 (Obj [(''MediaType'', Prim (Str LayerType)), (''Digest'', Prim (Str d))])"
  using assms by (simp add: object_text_def prim_text_def)

lemma layer_refs_text:
  assumes "length refs = length ds"
    and "\<forall>i<length ds. \<exists>a. refs ! i = Ref a
           \<and> h a = [(''MediaType'', Str LayerType), (''Size'', Undefined), (''Digest'', Str (ds ! i))]"
  shows "json_text h (Arr refs) =
         json_text h0 (Arr (map (\<lambda>d. Obj [(''MediaType'', Prim (Str LayerType)),
                                            (''Digest'', Prim (Str d))]) ds))"
proof -
  have "map (\<lambda>x. case json_text h x of None \<Rightarrow> ''null'' | Some t \<Rightarrow> t) refs =
        map (\<lambda>x. case json_text h0 x of None \<Rightarrow> ''null'' | Some t \<Rightarrow> t)
          (map (\<lambda>d. Obj [(''MediaType'', Prim (Str LayerType)), (''Digest'', Prim (Str d))]) ds)"
  proof (rule nth_equalityI)
    show "length (map (\<lambda>x. case json_text h x of None \<Rightarrow> ''null'' | Some t \<Rightarrow> t) refs) =
        length (map (\<lambda>x. case json_text h0 x of None \<Rightarrow> ''null'' | Some t \<Rightarrow> t)
          (map (\<lambda>d. Obj [(''MediaType'', Prim (Str LayerType)), (''Digest'', Prim (Str d))]) ds))"
      using assms(1) by simp
  next
    fix i
    assume "i < length (map (\<lambda>x. case json_text h x of None \<Rightarrow> ''null'' | Some t \<Rightarrow> t) refs)"
    then have i: "i < length ds" using assms(1) by simp
    with assms(2) obtain a where a: "refs ! i = Ref a"
      "h a = [(''MediaType'', Str LayerType), (''Size'', Undefined), (''Digest'', Str (ds ! i))]"
      by blast
    have "json_text h (refs ! i) =
      json_text h0 (Obj [(''MediaType'', Prim (Str LayerType)), (''Digest'', Prim (Str (ds ! i)))])"
      unfolding a(1) using a(2) by (rule layer_object_text)
    then show "map (\<lambda>x. case json_text h x of None \<Rightarrow> ''null'' | Some t \<Rightarrow> t) refs ! i =
        map (\<lambda>x. case json_text h0 x of None \<Rightarrow> ''null'' | Some t \<Rightarrow> t)
          (map (\<lambda>d. Obj [(''MediaType'', Prim (Str LayerType)), (''Digest'', Prim (Str d))]) ds) ! i"
      using i assms(1) by simp
  qed
  then show ?thesis by (simp only: json_text.simps)
qed

lemma manifest_text:
  assumes "json_text h (Arr refs) = json_text h0 (Arr layers)"
  shows "json_text h
           (Obj [(''SchemaVersion'', Prim (Num 2)),
                 (''MediaType'', Prim (Str mt)),
                 (''Config'',
                    Obj [(''MediaType'', Prim (Str ct)),
                         (''Digest'', Prim (Str cd)),
                         (''Size'', Prim Undefined)]),
                 (''Layers'', Arr refs)]) =
         json_text h0
           (Obj [(''SchemaVersion'', Prim (Num 2)),
                 (''MediaType'', Prim (Str mt)),
                 (''Config'',
                    Obj [(''MediaType'', Prim (Str ct)),
                         (''Digest'', Prim (Str cd))]),
                 (''Layers'', Arr layers)])"
proof -
  have p: "json_text h (Prim q) = json_text h0 (Prim q)" for q by simp
  have "object_text [(''MediaType'', json_text h0 (Prim (Str ct))),
                     (''Digest'', json_text h0 (Prim (Str cd))),
                     (''Size'', json_text h0 (Prim Undefined))] =
        object_text [(''MediaType'', json_text h0 (Prim (Str ct))),
                     (''Digest'', json_text h0 (Prim (Str cd)))]"
    by (simp add: object_text_def prim_text_def)
  then show ?thesis
    unfolding json_text.simps(3) list.map fst_conv snd_conv
    by (simp only: p assms)
qed


lemma writeManifest_Inr:
  "writeManifest m n d st = Inr st' \<Longrightarrow>
   files st' = (files st)(d @ ''/work/'' @ n @ ''/manifests/latest-v2'' \<mapsto> manifest_document st m)"
  by (auto simp: writeManifest_def writeFile_def open_write_def Let_def
      split: sum.splits if_splits)

lemma manifest_document_Obj:
  "Some (manifest_document st (Obj kvs)) = json_text (heap st) (Obj kvs)"
  by (simp add: manifest_document_def)

lemma run_in_writes_manifest:
  assumes "run_in rt src dst st3 = (Inr path, st')"
    and sep: "\<forall>x. \<not> prefix (dst @ ''/'') (src @ ''/'' @ x)"
    and nb: "\<forall>x. \<not> below src (dst @ x)"
  shows "\<exists>name configDigest layerDigests.
     path = dst @ ''/work''
     \<and> files st' (dst @ ''/work/'' @ name @ ''/manifests/latest-v2'') =
         json_text (\<lambda>a. [])
           (Obj [(''SchemaVersion'', Prim (Num 2)),
                 (''MediaType'', Prim (Str ManifestType)),
                 (''Config'',
                    Obj [(''MediaType'', Prim (Str ConfigType)),
                         (''Digest'', Prim (Str configDigest))]),
                 (''Layers'',
                    Arr (map (\<lambda>d. Obj [(''MediaType'', Prim (Str LayerType)),
                                         (''Digest'', Prim (Str d))]) layerDigests))])"
proof -
  from run_in_Inr [OF assms(1)] obtain name entry manifest st5 manifest' st6 st7 where
    c: "copyRootLayer (Some entry) name src dst (createDirectoryStructure dst name st3)
       = Inr (manifest, st5)"
    and e: "copyOtherLayers (completion rt) manifest name (Layers entry) src dst st5
       = Inr (manifest', st6)"
    and w: "writeManifest manifest' name dst st6 = Inr st7"
    and p: "path = dst @ ''/work''"
    and s: "st' = rmdir src (createDatRepo dst st7)"
    by blast
  let ?cd = "''sha256:'' @ rootLayerSha (Config entry)"
  let ?kvs = "[(''SchemaVersion'', Prim (Num 2)),
            (''MediaType'', Prim (Str ManifestType)),
            (''Config'',
               Obj [(''MediaType'', Prim (Str ConfigType)),
                    (''Digest'', Prim (Str ?cd)),
                    (''Size'', Prim Undefined)]),
            (''Layers'', Arr [])]"
  from c have m: "manifest = Obj ?kvs" by (rule copyRootLayer_Inr)
  have k: "map_of ?kvs ''Layers'' = Some (Arr [])" by simp
  have s5: "\<forall>l\<in>set (Layers entry). \<not> prefix (dst @ ''/'') (src @ ''/'' @ l)"
    using sep by blast
  from copyOtherLayers_Inr [OF e [unfolded m] k s5] obtain refs where
    m': "manifest' = Obj (set_prop ''Layers'' (Arr refs) ?kvs)"
    and len: "length refs = length (Layers entry)"
    and each: "\<forall>i<length (Layers entry). \<exists>a bytes.
                 refs ! i = Ref a
                 \<and> files st5 (src @ ''/'' @ Layers entry ! i) = Some bytes
                 \<and> heap st6 a = [(''MediaType'', Str LayerType), (''Size'', Undefined),
                                 (''Digest'', Str (''sha256:'' @ sha256_hex bytes))]"
    by blast
  define ds where
    "ds = map (\<lambda>l. ''sha256:'' @ sha256_hex (the (files st5 (src @ ''/'' @ l)))) (Layers entry)"
  have "\<exists>a. refs ! i = Ref a
           \<and> heap st6 a = [(''MediaType'', Str LayerType), (''Size'', Undefined),
                            (''Digest'', Str (ds ! i))]"
    if "i < length ds" for i
  proof -
    from that have i: "i < length (Layers entry)" by (simp add: ds_def)
    with each obtain a bytes where "refs ! i = Ref a"
      "files st5 (src @ ''/'' @ Layers entry ! i) = Some bytes"
      "heap st6 a = [(''MediaType'', Str LayerType), (''Size'', Undefined),
                                 (''Digest'', Str (''sha256:'' @ sha256_hex bytes))]"
      by blast
    then show ?thesis using i by (simp add: ds_def)
  qed
  moreover have "length refs = length ds" by (simp add: len ds_def)
  ultimately have "json_text (heap st6) (Arr refs) =
         json_text (\<lambda>a. []) (Arr (map (\<lambda>d. Obj [(''MediaType'', Prim (Str LayerType)),
                                            (''Digest'', Prim (Str d))]) ds))"
    by (intro layer_refs_text) blast+
  from manifest_text [OF this, of ManifestType ConfigType ?cd]
  have t: "json_text (heap st6) manifest' =
         json_text (\<lambda>a. [])
           (Obj [(''SchemaVersion'', Prim (Num 2)),
                 (''MediaType'', Prim (Str ManifestType)),
                 (''Config'',
                    Obj [(''MediaType'', Prim (Str ConfigType)),
                         (''Digest'', Prim (Str ?cd))]),
                 (''Layers'',
                    Arr (map (\<lambda>d. Obj [(''MediaType'', Prim (Str LayerType)),
                                         (''Digest'', Prim (Str d))]) ds))])"
    by (simp add: m')
  let ?mp = "dst @ ''/work/'' @ name @ ''/manifests/latest-v2''"
  have "\<not> below src ?mp" using nb by blast
  then have "files st' ?mp = files st7 ?mp"
    by (simp add: s rmdir_def createDatRepo_def)
  also have "\<dots> = Some (manifest_document st6 manifest')"
    by (simp add: writeManifest_Inr [OF w])
  also have "\<dots> = json_text (heap st6) manifest'"
    unfolding m' by (simp add: manifest_document_def)
  finally show ?thesis using t p by metis
qed

lemma temp_not_below:
  "\<not> below (''image2dat_src_'' @ a) ((''image2dat_dest_'' @ b) @ x)"
  by (simp add: below_def)

text \<open>
  Claim C9, as amended. When \<open>run\<close> succeeds, the file \<open>manifests/latest-v2\<close> under
  \<open><destTempDir>/work/<name>\<close> holds the JSON text of an object with the keys
  \<open>SchemaVersion\<close> (2), \<open>MediaType\<close>, \<open>Config\<close> and \<open>Layers\<close>, in which the three
  media types are the fixed strings and every descriptor has the keys \<open>MediaType\<close> and
  \<open>Digest\<close> (the \<open>Size\<close>, being \<open>undefined\<close>, is not written).
\<close>

theorem run_writes_manifest_document:
  assumes "run rt st0 = (Inr path, st')"
  shows "\<exists>name configDigest layerDigests.
     path = ''image2dat_dest_'' @ dest_chosen rt @ ''/work''
     \<and> files st' (path @ ''/'' @ name @ ''/manifests/latest-v2'') =
         json_text (\<lambda>a. [])
           (Obj [(''SchemaVersion'', Prim (Num 2)),
                 (''MediaType'',
                    Prim (Str ''application/vnd.docker.distribution.manifest.v2+json'')),
                 (''Config'',
                    Obj [(''MediaType'',
                            Prim (Str ''application/vnd.docker.container.image.v1+json'')),
                         (''Digest'', Prim (Str configDigest))]),
                 (''Layers'',
                    Arr (map (\<lambda>d. Obj [(''MediaType'',
                                            Prim (Str ''application/vnd.docker.image.rootfs.diff.tar.gzip'')),
                                         (''Digest'', Prim (Str d))]) layerDigests))])"
proof -
  define src where "src = ''image2dat_src_'' @ src_chosen rt"
  define dst where "dst = ''image2dat_dest_'' @ dest_chosen rt"
  have sep: "\<forall>x. \<not> prefix (dst @ ''/'') (src @ ''/'' @ x)"
    unfolding src_def dst_def using temp_dirs_apart(1) by blast
  have nb: "\<forall>x. \<not> below src (dst @ x)"
    unfolding src_def dst_def using temp_not_below by blast
  from assms obtain st3 where "run_in rt src dst st3 = (Inr path, st')"
    unfolding src_def dst_def by (simp add: run_unfold)
  from run_in_writes_manifest [OF this sep nb] obtain name configDigest layerDigests where
    "path = dst @ ''/work''"
    "files st' (dst @ ''/work/'' @ name @ ''/manifests/latest-v2'') =
         json_text (\<lambda>a. [])
           (Obj [(''SchemaVersion'', Prim (Num 2)),
                 (''MediaType'', Prim (Str ManifestType)),
                 (''Config'',
                    Obj [(''MediaType'', Prim (Str ConfigType)),
                         (''Digest'', Prim (Str configDigest))]),
                 (''Layers'',
                    Arr (map (\<lambda>d. Obj [(''MediaType'', Prim (Str LayerType)),
                                         (''Digest'', Prim (Str d))]) layerDigests))])"
    by blast
  then show ?thesis
    unfolding dst_def ManifestType_def ConfigType_def LayerType_def
    by (intro exI [of _ name] exI [of _ configDigest] exI [of _ layerDigests]) simp
qed

lemma copyOtherLayers_dirs:
  assumes "copyOtherLayers choices (Obj kvs) imageName layers sourceDir destDir st
             = Inr (manifest', st')"
    and "map_of kvs ''Layers'' = Some (Arr xs)"
  shows "dirs st' = dirs st"
proof -
  let ?as = "[next_addr st..<next_addr st + length layers]"
  let ?ts = "map2 (\<lambda>a l. compressLayer_start a l imageName sourceDir destDir) ?as layers"
  from start_layers_props [OF assms(2), of layers imageName sourceDir destDir st]
  obtain m st1 where
    s: "start_layers layers imageName sourceDir destDir (Obj kvs) st = Some (m, st1, ?ts)"
    and f: "dirs st1 = dirs st"
    by blast
  from assms(1) have c: "finish_layers choices ?ts st1 = Inr st'"
    by (auto simp: copyOtherLayers_def s split: sum.splits)
  have same: "\<forall>t\<in>set ?ts. task_destDir t = destDir \<and> task_imageName t = imageName"
  proof
    fix u assume "u \<in> set ?ts"
    then obtain a' k where "u = compressLayer_start a' k imageName sourceDir destDir"
      by (metis started_task)
    then show "task_destDir u = destDir \<and> task_imageName u = imageName"
      by (simp add: compressLayer_start_def Let_def)
  qed
  from finish_layers_footprint [OF same, of choices st1]
  show ?thesis by (simp add: c final_state_def f)
qed

lemma run_in_succeeds:
  assumes "files st3 (src @ ''/'' @ ''repositories'') = Some rbytes"
    and "parse_repositories rt rbytes = Inr (imageKey # moreKeys)"
    and "CHR ''/'' \<notin> set imageKey"
    and "files st3 (src @ ''/'' @ ''manifest.json'') = Some mbytes"
    and "parse_manifest rt mbytes = Inr (entry # others)"
    and "files st3 (src @ ''/'' @ Config entry) = Some cbytes"
    and "CHR ''/'' \<notin> set (rootLayerSha (Config entry))"
    and "dst \<in> dirs st3"
    and "\<forall>l\<in>set (Layers entry). files st3 (src @ ''/'' @ l) \<noteq> None \<and> l \<noteq> Config entry"
    and sep: "\<forall>x. \<not> prefix (dst @ ''/'') (src @ ''/'' @ x)"
  shows "\<exists>st'. run_in rt src dst st3 = (Inr (dst @ ''/work''), st')"
proof -
  let ?blob = "dst @ ''/work/'' @ imageKey @ ''/blobs/sha256:'' @ rootLayerSha (Config entry)"
  let ?st5 = "(createDirectoryStructure dst imageKey st3)
               \<lparr>files := (files st3)(src @ ''/'' @ Config entry := None, ?blob \<mapsto> cbytes)\<rparr>"
  let ?kvs = "[(''SchemaVersion'', Prim (Num ManifestVersion)),
          (''MediaType'', Prim (Str ManifestType)),
          (''Config'',
             Obj [(''MediaType'', Prim (Str ConfigType)),
                  (''Digest'', Prim (Str (''sha256:'' @ rootLayerSha (Config entry)))),
                  (''Size'', Prim Undefined)]),
          (''Layers'', Arr [])]"
  have ml: "manifest_literal (rootLayerSha (Config entry)) Undefined = Obj ?kvs"
    by (simp add: manifest_literal_def)
  have k: "map_of ?kvs ''Layers'' = Some (Arr [])" by simp
  have pb: "prefix (dst @ ''/'') ?blob" by simp
  have nb: "src @ ''/'' @ x \<noteq> ?blob" for x using sep pb by metis
  have f5: "\<forall>l\<in>set (Layers entry). files ?st5 (src @ ''/'' @ l) \<noteq> None"
    using assms(9) nb by simp
  have d5: "dst \<in> dirs ?st5" "dst @ ''/work/'' @ imageKey @ ''/blobs'' \<in> dirs ?st5"
    "dst @ ''/work/'' @ imageKey @ ''/manifests'' \<in> dirs ?st5"
    using createDirectoryStructure_props(4) [OF assms(8), of dst imageKey]
      createDirectoryStructure_props(5,6) [of dst imageKey st3]
    by simp_all
  have s5: "\<forall>l\<in>set (Layers entry). \<not> prefix (dst @ ''/'') (src @ ''/'' @ l)"
    using sep by blast
  from copyOtherLayers_succeeds [OF k f5 d5(1,2) s5, of "completion rt"]
  obtain manifest' st6 where
    c: "copyOtherLayers (completion rt) (Obj ?kvs) imageKey (Layers entry) src dst ?st5
      = Inr (manifest', st6)"
    by blast
  have "dirs st6 = dirs ?st5" using c k by (rule copyOtherLayers_dirs)
  then have "dir_exists st6 (dirname (dst @ ''/work/'' @ imageKey @ ''/manifests/latest-v2''))"
    using d5(3) by (simp only: dirname_manifest dir_exists_def simp_thms)
  then have "\<exists>st7. writeManifest manifest' imageKey dst st6 = Inr st7"
    by (simp add: writeManifest_def writeFile_def open_write_def Let_def)
  then obtain st7 where w: "writeManifest manifest' imageKey dst st6 = Inr st7" ..
  have "run_in rt src dst st3 = (Inr (dst @ ''/work''), rmdir src (createDatRepo dst st7))"
    by (simp only: run_in_reaches_layers [OF assms(1-7)] ml c w sum.case prod.case)
  then show ?thesis by blast
qed

lemma run_succeeds:
  assumes "\<forall>p. prefix ''image2dat_'' p \<longrightarrow> files st0 p = None"
    and "distinct (map fst (archive rt))"
    and "map_of (archive rt) ''repositories'' = Some rbytes"
    and "parse_repositories rt rbytes = Inr (imageKey # moreKeys)"
    and "CHR ''/'' \<notin> set imageKey"
    and "map_of (archive rt) ''manifest.json'' = Some mbytes"
    and "parse_manifest rt mbytes = Inr (entry # others)"
    and "map_of (archive rt) (Config entry) = Some cbytes"
    and "CHR ''/'' \<notin> set (rootLayerSha (Config entry))"
    and "\<forall>l\<in>set (Layers entry). map_of (archive rt) l \<noteq> None \<and> l \<noteq> Config entry"
  shows "\<exists>st'. run rt st0 = (Inr (''image2dat_dest_'' @ dest_chosen rt @ ''/work''), st')"
proof -
  define src where "src = ''image2dat_src_'' @ src_chosen rt"
  define dst where "dst = ''image2dat_dest_'' @ dest_chosen rt"
  define st1 where "st1 = st0\<lparr>dirs := insert src (dirs st0)\<rparr>"
  define st2 where "st2 = untar (archive rt) src st1"
  define st3 where "st3 = st2\<lparr>dirs := insert dst (dirs st2)\<rparr>"
  have r: "run rt st0 = run_in rt src dst st3"
    unfolding st3_def st2_def st1_def src_def dst_def by (rule run_unfold)
  have sep: "\<forall>x. \<not> prefix (dst @ ''/'') (src @ ''/'' @ x)"
    unfolding src_def dst_def using temp_dirs_apart(1) by blast
  have fr: "files st0 (src @ x) = None" for x
    using assms(1) temp_dirs_apart(3) unfolding src_def by blast
  have inside: "files st3 (src @ ''/'' @ r) =
      (case map_of (archive rt) r of None \<Rightarrow> None | Some b \<Rightarrow> Some b)" for r
    using untar_files [OF assms(2), of src st1 r] fr [of "''/'' @ r"]
    by (simp add: st3_def st2_def st1_def split: option.splits)
  have h1: "files st3 (src @ ''/'' @ ''repositories'') = Some rbytes"
    and h4: "files st3 (src @ ''/'' @ ''manifest.json'') = Some mbytes"
    and h6: "files st3 (src @ ''/'' @ Config entry) = Some cbytes"
    using assms(3,6,8) by (simp_all only: inside option.case)
  have h8: "dst \<in> dirs st3" by (simp add: st3_def)
  have h9: "\<forall>l\<in>set (Layers entry). files st3 (src @ ''/'' @ l) \<noteq> None \<and> l \<noteq> Config entry"
    using assms(10) by (auto simp only: inside split: option.splits)
  from run_in_succeeds [OF h1 assms(4,5) h4 assms(7) h6 assms(9) h8 h9 sep]
  have "\<exists>st'. run rt st0 = (Inr (dst @ ''/work''), st')"
    by (simp only: r)
  then show ?thesis by (simp add: dst_def)
qed

theorem run_writes_manifest_document_witness:
  "\<exists>st'. run example_runtime empty_state = (Inr ''image2dat_dest_Xy89Zw/work'', st')
     \<and> (\<exists>name configDigest layerDigests.
          files st' (''image2dat_dest_Xy89Zw/work'' @ ''/'' @ name @ ''/manifests/latest-v2'') =
          json_text (\<lambda>a. [])
           (Obj [(''SchemaVersion'', Prim (Num 2)),
                 (''MediaType'',
                    Prim (Str ''application/vnd.docker.distribution.manifest.v2+json'')),
                 (''Config'',
                    Obj [(''MediaType'',
                            Prim (Str ''application/vnd.docker.container.image.v1+json'')),
                         (''Digest'', Prim (Str configDigest))]),
                 (''Layers'',
                    Arr (map (\<lambda>d. Obj [(''MediaType'',
                                            Prim (Str ''application/vnd.docker.image.rootfs.diff.tar.gzip'')),
                                         (''Digest'', Prim (Str d))]) layerDigests))]))"
proof -
  have 1: "\<forall>p. prefix ''image2dat_'' p \<longrightarrow> files empty_state p = None"
    by (simp add: empty_state_def)
  have 2: "distinct (map fst (archive example_runtime))"
    by (simp add: example_runtime_def)
  have 3: "map_of (archive example_runtime) ''repositories'' = Some ''(repositories)''"
    by (simp add: example_runtime_def)
  have 4: "parse_repositories example_runtime ''(repositories)'' = Inr (''app'' # [])"
    by (simp add: example_runtime_def)
  have 5: "CHR ''/'' \<notin> set ''app''" by simp
  have 6: "map_of (archive example_runtime) ''manifest.json'' = Some ''(manifest list)''"
    by (simp add: example_runtime_def)
  have 7: "parse_manifest example_runtime ''(manifest list)'' = Inr (example_entry # [])"
    by (simp add: example_runtime_def)
  have 8: "map_of (archive example_runtime) (Config example_entry) = Some ''{}''"
    by (simp add: example_runtime_def example_entry_def)
  have 9: "CHR ''/'' \<notin> set (rootLayerSha (Config example_entry))"
    using rootLayerSha_json [of "''c0ffee''"] by (simp add: example_entry_def)
  have 10: "\<forall>l\<in>set (Layers example_entry).
      map_of (archive example_runtime) l \<noteq> None \<and> l \<noteq> Config example_entry"
    by (simp add: example_runtime_def example_entry_def)
  from run_succeeds [OF 1 2 3 4 5 6 7 8 9 10] obtain st' where
    r: "run example_runtime empty_state =
          (Inr (''image2dat_dest_'' @ dest_chosen example_runtime @ ''/work''), st')"
    by blast
  from run_writes_manifest_document [OF r] r show ?thesis
    by (simp add: example_runtime_def)
qed

text \<open>
  Claim C9 as it was stated fails on the bundle without layers: the run succeeds and
  writes \<open>minimal_document\<close>, in which none of the key names \<open>schemaVersion\<close>,
  \<open>mediaType\<close>, \<open>config\<close> and \<open>layers\<close> occurs.
\<close>

theorem manifest_keys_counterexample:
  "fst (run minimal_runtime empty_state) = Inr ''image2dat_dest_Xy89Zw/work''
   \<and> files (snd (run minimal_runtime empty_state))
       ''image2dat_dest_Xy89Zw/work/app/manifests/latest-v2'' = Some minimal_document
   \<and> \<not> sublist (quote ''schemaVersion'') minimal_document
   \<and> \<not> sublist (quote ''mediaType'') minimal_document
   \<and> \<not> sublist (quote ''config'') minimal_document
   \<and> \<not> sublist (quote ''layers'') minimal_document"
  by code_simp

end
